theory Spec2Isabelle
  imports Main
begin

section \<open>The warehouse multi-agent simulation (Types\_Agents/Multi-Agent.py)\<close>

text \<open>
  The simulation keeps its agents as Python objects that are shared by reference: the
  system's \<open>agents\<close> dictionary and the coordinator's \<open>agent_registry\<close> point to the
  same objects. The model therefore has an explicit store from addresses to agent objects;
  every method takes the address of \<open>self\<close> and the world, and returns the world as the
  method leaves it. A method that can raise returns \<open>Inl\<close> of the error together with the
  world as mutated up to the raise (Python keeps those mutations).
\<close>

subsection \<open>Data\<close>

datatype AgentState = IDLE | WORKING | MOVING | CHARGING | WAITING

text \<open>The class of an object; \<open>isinstance\<close> tests and method resolution read it.\<close>

datatype agent_class = BaseAgent | PickerAgent | TransportAgent | CoordinatorAgent

datatype py_error = AttributeError

type_synonym pos = "int \<times> int"

type_synonym addr = nat

text \<open>
  A message payload, an order and a task request are dictionaries with string keys. The
  record has one optional field per key the program reads or writes; \<open>None\<close> is an absent
  key, so \<open>d.get(k, default)\<close> is a case distinction on the field. The key \<open>'agent_id'\<close>
  of a resource request or status update is the field \<open>req_agent_id\<close>.
\<close>

record payload =
  order_id :: "string option"
  items :: "string list option"
  priority :: "string option"
  location :: "pos option"
  pickup_location :: "pos option"
  delivery_location :: "pos option"
  item_count :: "int option"
  resource_type :: "string option"
  req_agent_id :: "string option"
  status :: "string option"

definition empty_dict :: payload where
  "empty_dict = \<lparr>order_id = None, items = None, priority = None, location = None,
     pickup_location = None, delivery_location = None, item_count = None,
     resource_type = None, req_agent_id = None, status = None\<rparr>"

text \<open>\<open>timestamp\<close> is the clock reading taken at creation; the core never reads it.\<close>

record message =
  sender_id :: string
  receiver_id :: string
  message_type :: string
  content :: payload
  timestamp :: int

text \<open>
  One record for the objects of all four classes. The fields up to \<open>collaboration_count\<close>
  are those of \<open>BaseAgent.__init__\<close> (the four counters are the keys of
  \<open>performance_metrics\<close>); \<open>carrying_capacity\<close> and \<open>current_load\<close> exist on pickers and
  transporters; \<open>pending_orders\<close>, the two keys of \<open>resource_status\<close> and
  \<open>agent_registry\<close> exist on coordinators. A field that the object's class does not have
  is never read by the program. A Python dictionary keeps insertion order, so the registry
  is an association list.
\<close>

record agent =
  cls :: agent_class
  agent_id :: string
  agent_type :: string
  position :: pos
  state :: AgentState
  battery_level :: int
  message_queue :: "message list"
  current_task :: "payload option"
  tasks_completed :: int
  messages_sent :: int
  messages_received :: int
  collaboration_count :: int
  carrying_capacity :: int
  current_load :: int
  pending_orders :: "payload list"
  charging_stations :: int
  available_stations :: int
  agent_registry :: "(string \<times> addr) list"

text \<open>
  The world: the object store, the fields of the one \<open>MultiAgentSystem\<close> object
  (\<open>agents\<close>, \<open>coordinator\<close>, \<open>message_log\<close> and the three keys of \<open>system_metrics\<close>),
  and the state of the \<open>random\<close> module as a stream of raw draws with a cursor.
\<close>

record world =
  store :: "addr \<Rightarrow> agent"
  agents :: "(string \<times> addr) list"
  coordinator :: "addr option"
  message_log :: "message list"
  total_messages :: int
  orders_processed :: int
  collaboration_instances :: int
  seed :: "nat \<Rightarrow> nat"
  draws :: nat

type_synonym 'a result = "(py_error + 'a) \<times> world"

subsection \<open>Python primitives\<close>

text \<open>\<open>d[k] = v\<close>: an existing key keeps its place, a new key goes to the end.\<close>

fun dict_set :: "'k \<Rightarrow> 'v \<Rightarrow> ('k \<times> 'v) list \<Rightarrow> ('k \<times> 'v) list" where
  "dict_set k v [] = [(k, v)]"
| "dict_set k v ((k', v') # d) =
     (if k' = k then (k, v) # d else (k', v') # dict_set k v d)"

definition dict_values :: "('k \<times> 'v) list \<Rightarrow> 'v list" where
  "dict_values d = map snd d"

text \<open>\<open>random.randint(lo, hi)\<close>: the next raw draw, brought into \<open>[lo, hi]\<close>.\<close>

definition randint :: "int \<Rightarrow> int \<Rightarrow> world \<Rightarrow> int \<times> world" where
  "randint lo hi w =
     (lo + int (seed w (draws w) mod nat (hi - lo + 1)), w\<lparr>draws := draws w + 1\<rparr>)"

text \<open>Assignment to attributes of the object at an address.\<close>

definition upd :: "addr \<Rightarrow> (agent \<Rightarrow> agent) \<Rightarrow> world \<Rightarrow> world" where
  "upd a f w = w\<lparr>store := (store w)(a := f (store w a))\<rparr>"

subsection \<open>Constructors\<close>

definition BaseAgent_init :: "agent_class \<Rightarrow> string \<Rightarrow> string \<Rightarrow> pos \<Rightarrow> agent" where
  "BaseAgent_init c aid atype p =
     \<lparr>cls = c, agent_id = aid, agent_type = atype, position = p, state = IDLE,
      battery_level = 100, message_queue = [], current_task = None,
      tasks_completed = 0, messages_sent = 0, messages_received = 0,
      collaboration_count = 0, carrying_capacity = 0, current_load = 0,
      pending_orders = [], charging_stations = 0, available_stations = 0,
      agent_registry = []\<rparr>"

definition PickerAgent_init :: "string \<Rightarrow> pos \<Rightarrow> agent" where
  "PickerAgent_init aid p =
     (BaseAgent_init PickerAgent aid ''Picker'' p)\<lparr>carrying_capacity := 10, current_load := 0\<rparr>"

definition TransportAgent_init :: "string \<Rightarrow> pos \<Rightarrow> agent" where
  "TransportAgent_init aid p =
     (BaseAgent_init TransportAgent aid ''Transport'' p)\<lparr>carrying_capacity := 50, current_load := 0\<rparr>"

definition CoordinatorAgent_init :: "string \<Rightarrow> agent" where
  "CoordinatorAgent_init aid =
     (BaseAgent_init CoordinatorAgent aid ''Coordinator'' (5, 5))
       \<lparr>pending_orders := [], charging_stations := 3, available_stations := 3,
        agent_registry := []\<rparr>"

definition MultiAgentSystem_init :: "(addr \<Rightarrow> agent) \<Rightarrow> (nat \<Rightarrow> nat) \<Rightarrow> world" where
  "MultiAgentSystem_init objs sd =
     \<lparr>store = objs, agents = [], coordinator = None, message_log = [],
      total_messages = 0, orders_processed = 0, collaboration_instances = 0,
      seed = sd, draws = 0\<rparr>"

subsection \<open>BaseAgent\<close>

definition receive_message :: "addr \<Rightarrow> message \<Rightarrow> world \<Rightarrow> world" where
  "receive_message self msg w =
     upd self (\<lambda>ag. ag\<lparr>message_queue := message_queue ag @ [msg],
                       messages_received := messages_received ag + 1\<rparr>) w"

definition update_battery :: "addr \<Rightarrow> int \<Rightarrow> world \<Rightarrow> world" where
  "update_battery self consumption w =
     upd self (\<lambda>ag. ag\<lparr>battery_level := max 0 (battery_level ag - consumption)\<rparr>) w"

subsection \<open>PickerAgent\<close>

text \<open>
  \<open>move_to_location\<close> is a method of \<open>PickerAgent\<close> only: neither \<open>BaseAgent\<close> nor
  \<open>TransportAgent\<close> nor \<open>CoordinatorAgent\<close> defines or inherits it, so looking it up on an
  object of another class raises \<open>AttributeError\<close> before anything is changed.
\<close>

definition move_to_location :: "addr \<Rightarrow> pos \<Rightarrow> world \<Rightarrow> unit result" where
  "move_to_location self target_location w =
     (if cls (store w self) = PickerAgent
      then (Inr (), update_battery self 2
              (upd self (\<lambda>ag. ag\<lparr>position := target_location\<rparr>)
                (upd self (\<lambda>ag. ag\<lparr>state := MOVING\<rparr>) w)))
      else (Inl AttributeError, w))"

definition pick_items :: "addr \<Rightarrow> string list \<Rightarrow> world \<Rightarrow> world" where
  "pick_items self its w =
     upd self (\<lambda>ag. ag\<lparr>state := IDLE\<rparr>)
       (update_battery self (int (length its))
         (upd self (\<lambda>ag. ag\<lparr>current_load := current_load ag + int (length its)\<rparr>) w))"

definition handle_pick_request :: "addr \<Rightarrow> payload \<Rightarrow> world \<Rightarrow> unit result" where
  "handle_pick_request self request w =
     (let items_needed = (case items request of None \<Rightarrow> [] | Some xs \<Rightarrow> xs);
          loc = (case location request of None \<Rightarrow> (0, 0) | Some p \<Rightarrow> p)
      in if state (store w self) = IDLE
            \<and> current_load (store w self) + int (length items_needed)
                \<le> carrying_capacity (store w self)
         then (case move_to_location self loc
                      (upd self (\<lambda>ag. ag\<lparr>current_task := Some request\<rparr>)
                        (upd self (\<lambda>ag. ag\<lparr>state := WORKING\<rparr>) w)) of
                 (Inl e, w1) \<Rightarrow> (Inl e, w1)
               | (Inr _, w1) \<Rightarrow>
                   (Inr (), upd self (\<lambda>ag. ag\<lparr>tasks_completed := tasks_completed ag + 1\<rparr>)
                              (pick_items self items_needed w1)))
         else (Inr (), w))"

definition handle_collaboration_request :: "addr \<Rightarrow> payload \<Rightarrow> world \<Rightarrow> bool \<times> world" where
  "handle_collaboration_request self request w =
     (if state (store w self) = IDLE
      then (True, upd self (\<lambda>ag. ag\<lparr>collaboration_count := collaboration_count ag + 1\<rparr>) w)
      else (False, w))"

definition PickerAgent_handle_message :: "addr \<Rightarrow> message \<Rightarrow> world \<Rightarrow> unit result" where
  "PickerAgent_handle_message self msg w =
     (if message_type msg = ''PICK_REQUEST'' then handle_pick_request self (content msg) w
      else if message_type msg = ''COLLABORATION_REQUEST''
      then (Inr (), snd (handle_collaboration_request self (content msg) w))
      else (Inr (), w))"

subsection \<open>TransportAgent\<close>

definition execute_transport :: "addr \<Rightarrow> pos \<Rightarrow> pos \<Rightarrow> int \<Rightarrow> world \<Rightarrow> unit result" where
  "execute_transport self pickup_loc delivery_loc n w =
     (case move_to_location self pickup_loc w of
        (Inl e, w1) \<Rightarrow> (Inl e, w1)
      | (Inr _, w1) \<Rightarrow>
          (case move_to_location self delivery_loc
                  (upd self (\<lambda>ag. ag\<lparr>current_load := current_load ag + n\<rparr>) w1) of
             (Inl e, w2) \<Rightarrow> (Inl e, w2)
           | (Inr _, w2) \<Rightarrow>
               (Inr (), upd self (\<lambda>ag. ag\<lparr>state := IDLE\<rparr>)
                          (upd self (\<lambda>ag. ag\<lparr>current_load := current_load ag - n\<rparr>) w2))))"

definition handle_transport_request :: "addr \<Rightarrow> payload \<Rightarrow> world \<Rightarrow> unit result" where
  "handle_transport_request self request w =
     (let pickup = (case pickup_location request of None \<Rightarrow> (0, 0) | Some p \<Rightarrow> p);
          delivery = (case delivery_location request of None \<Rightarrow> (10, 10) | Some p \<Rightarrow> p);
          n = (case item_count request of None \<Rightarrow> 0 | Some k \<Rightarrow> k)
      in if state (store w self) = IDLE \<and> n \<le> carrying_capacity (store w self)
         then (case execute_transport self pickup delivery n
                      (upd self (\<lambda>ag. ag\<lparr>current_task := Some request\<rparr>)
                        (upd self (\<lambda>ag. ag\<lparr>state := WORKING\<rparr>) w)) of
                 (Inl e, w1) \<Rightarrow> (Inl e, w1)
               | (Inr _, w1) \<Rightarrow>
                   (Inr (), upd self (\<lambda>ag. ag\<lparr>tasks_completed := tasks_completed ag + 1\<rparr>) w1))
         else (Inr (), w))"

definition handle_pickup_ready :: "addr \<Rightarrow> payload \<Rightarrow> world \<Rightarrow> world" where
  "handle_pickup_ready self notification w = w"

definition TransportAgent_handle_message :: "addr \<Rightarrow> message \<Rightarrow> world \<Rightarrow> unit result" where
  "TransportAgent_handle_message self msg w =
     (if message_type msg = ''TRANSPORT_REQUEST''
      then handle_transport_request self (content msg) w
      else if message_type msg = ''PICKUP_READY''
      then (Inr (), handle_pickup_ready self (content msg) w)
      else (Inr (), w))"

subsection \<open>CoordinatorAgent\<close>

definition register_agent :: "addr \<Rightarrow> addr \<Rightarrow> world \<Rightarrow> world" where
  "register_agent self a w =
     upd self (\<lambda>ag. ag\<lparr>agent_registry :=
                        dict_set (agent_id (store w a)) a (agent_registry ag)\<rparr>) w"

definition available_pickers :: "addr \<Rightarrow> world \<Rightarrow> addr list" where
  "available_pickers self w =
     filter (\<lambda>a. cls (store w a) = PickerAgent \<and> state (store w a) = IDLE)
       (dict_values (agent_registry (store w self)))"

definition available_transporters :: "addr \<Rightarrow> world \<Rightarrow> addr list" where
  "available_transporters self w =
     filter (\<lambda>a. cls (store w a) = TransportAgent \<and> state (store w a) = IDLE)
       (dict_values (agent_registry (store w self)))"

definition allocate_tasks :: "addr \<Rightarrow> payload \<Rightarrow> world \<Rightarrow> unit result" where
  "allocate_tasks self order w =
     (let items_needed = (case items order of None \<Rightarrow> [] | Some xs \<Rightarrow> xs)
      in case (available_pickers self w, available_transporters self w) of
           (picker # _, transporter # _) \<Rightarrow>
             (let (x1, w1) = randint 1 10 w;
                  (y1, w2) = randint 1 10 w1
              in case handle_pick_request picker
                        (empty_dict\<lparr>items := Some items_needed, location := Some (x1, y1)\<rparr>) w2 of
                   (Inl e, w3) \<Rightarrow> (Inl e, w3)
                 | (Inr _, w3) \<Rightarrow>
                     (let pickup = position (store w3 picker);
                          (x2, w4) = randint 1 10 w3;
                          (y2, w5) = randint 1 10 w4
                      in handle_transport_request transporter
                           (empty_dict\<lparr>pickup_location := Some pickup,
                              delivery_location := Some (x2, y2),
                              item_count := Some (int (length items_needed))\<rparr>) w5))
         | _ \<Rightarrow> (Inr (), w))"

definition handle_order_request :: "addr \<Rightarrow> payload \<Rightarrow> world \<Rightarrow> unit result" where
  "handle_order_request self order w =
     allocate_tasks self order
       (upd self (\<lambda>ag. ag\<lparr>pending_orders := pending_orders ag @ [order]\<rparr>) w)"

text \<open>
  The result is \<open>Some True\<close> (granted), \<open>Some False\<close> (denied) or \<open>None\<close>: for another
  resource type the method falls off its end and returns Python's \<open>None\<close>.
\<close>

definition handle_resource_request :: "addr \<Rightarrow> payload \<Rightarrow> world \<Rightarrow> bool option \<times> world" where
  "handle_resource_request self request w =
     (let rtype = (case resource_type request of None \<Rightarrow> '''' | Some s \<Rightarrow> s)
      in if rtype = ''charging_station''
         then if available_stations (store w self) > 0
              then (Some True,
                    upd self (\<lambda>ag. ag\<lparr>available_stations := available_stations ag - 1\<rparr>) w)
              else (Some False, w)
         else (None, w))"

definition handle_status_update :: "addr \<Rightarrow> payload \<Rightarrow> world \<Rightarrow> world" where
  "handle_status_update self st w = w"

definition CoordinatorAgent_handle_message :: "addr \<Rightarrow> message \<Rightarrow> world \<Rightarrow> unit result" where
  "CoordinatorAgent_handle_message self msg w =
     (if message_type msg = ''ORDER_REQUEST'' then handle_order_request self (content msg) w
      else if message_type msg = ''RESOURCE_REQUEST''
      then (Inr (), snd (handle_resource_request self (content msg) w))
      else if message_type msg = ''STATUS_UPDATE''
      then (Inr (), handle_status_update self (content msg) w)
      else (Inr (), w))"

subsection \<open>Dispatch and the message loop\<close>

text \<open>\<open>self.handle_message(message)\<close>: the method of the object's class.\<close>

definition handle_message :: "addr \<Rightarrow> message \<Rightarrow> world \<Rightarrow> unit result" where
  "handle_message self msg w =
     (case cls (store w self) of
        BaseAgent \<Rightarrow> (Inr (), w)
      | PickerAgent \<Rightarrow> PickerAgent_handle_message self msg w
      | TransportAgent \<Rightarrow> TransportAgent_handle_message self msg w
      | CoordinatorAgent \<Rightarrow> CoordinatorAgent_handle_message self msg w)"

text \<open>
  \<open>BaseAgent.process_messages\<close>, for any handler a class may install as
  \<open>handle_message\<close>. The loop tests the queue as it is after each handler call, so it may
  run forever under a handler that keeps enqueueing: \<open>None\<close> is the loop that never returns.
\<close>

partial_function (option) process_messages_with ::
  "(addr \<Rightarrow> message \<Rightarrow> world \<Rightarrow> unit result) \<Rightarrow> addr \<Rightarrow> world \<Rightarrow> unit result option" where
  "process_messages_with handler self w =
     (case message_queue (store w self) of
        [] \<Rightarrow> Some (Inr (), w)
      | msg # rest \<Rightarrow>
          (case handler self msg (upd self (\<lambda>ag. ag\<lparr>message_queue := rest\<rparr>) w) of
             (Inl e, w1) \<Rightarrow> Some (Inl e, w1)
           | (Inr _, w1) \<Rightarrow> process_messages_with handler self w1))"

definition process_messages :: "addr \<Rightarrow> world \<Rightarrow> unit result option" where
  "process_messages self w = process_messages_with handle_message self w"

subsection \<open>MultiAgentSystem\<close>

definition add_agent :: "addr \<Rightarrow> world \<Rightarrow> world" where
  "add_agent a w =
     (let w1 = w\<lparr>agents := dict_set (agent_id (store w a)) a (agents w)\<rparr>
      in if cls (store w1 a) = CoordinatorAgent then w1\<lparr>coordinator := Some a\<rparr>
         else (case coordinator w1 of
                 Some c \<Rightarrow> register_agent c a w1
               | None \<Rightarrow> w1))"

fun broadcast :: "message \<Rightarrow> addr list \<Rightarrow> world \<Rightarrow> world" where
  "broadcast msg [] w = w"
| "broadcast msg (a # as) w =
     broadcast msg as
       (if agent_id (store w a) \<noteq> sender_id msg then receive_message a msg w else w)"

definition route_message :: "message \<Rightarrow> world \<Rightarrow> world" where
  "route_message msg w =
     (let w1 = w\<lparr>message_log := message_log w @ [msg]\<rparr>;
          w2 = w1\<lparr>total_messages := total_messages w1 + 1\<rparr>
      in if receiver_id msg = ''ALL'' then broadcast msg (dict_values (agents w2)) w2
         else (case map_of (agents w2) (receiver_id msg) of
                 Some a \<Rightarrow> receive_message a msg w2
               | None \<Rightarrow> w2))"

text \<open>
  \<open>BaseAgent.send_message\<close>, with the one system as \<open>mas_coordinator\<close>; \<open>now\<close> is the
  clock reading that the new message takes as its timestamp.
\<close>

definition send_message :: "addr \<Rightarrow> string \<Rightarrow> string \<Rightarrow> payload \<Rightarrow> int \<Rightarrow> world \<Rightarrow> world" where
  "send_message self rid mtype c now w =
     upd self (\<lambda>ag. ag\<lparr>messages_sent := messages_sent ag + 1\<rparr>)
       (route_message
          \<lparr>sender_id = agent_id (store w self), receiver_id = rid, message_type = mtype,
           content = c, timestamp = now\<rparr> w)"

definition process_order :: "payload \<Rightarrow> world \<Rightarrow> unit result" where
  "process_order order w =
     (let w1 = w\<lparr>orders_processed := orders_processed w + 1\<rparr>
      in case coordinator w1 of
           Some c \<Rightarrow> handle_order_request c order w1
         | None \<Rightarrow> (Inr (), w1))"

definition low_battery_agents :: "world \<Rightarrow> addr list" where
  "low_battery_agents w =
     filter (\<lambda>a. battery_level (store w a) < 30 \<and> cls (store w a) \<noteq> CoordinatorAgent)
       (dict_values (agents w))"

text \<open>The dictionary literal that the loop passes to \<open>handle_resource_request\<close>.\<close>

definition charging_request :: "addr \<Rightarrow> world \<Rightarrow> payload" where
  "charging_request a w =
     empty_dict\<lparr>resource_type := Some ''charging_station'',
                 req_agent_id := Some (agent_id (store w a))\<rparr>"

text \<open>
  One iteration of the \<open>for agent in low_battery_agents\<close> loop, the loop, and the pass.
  The source returns nothing from the pass. Here each of the three also returns what it
  hands to \<open>handle_resource_request\<close>: the iteration the dictionary of its one call, the
  loop and the pass the dictionaries of their calls in call order.
\<close>

definition compete_one :: "addr \<Rightarrow> addr \<Rightarrow> world \<Rightarrow> payload \<times> world" where
  "compete_one c a w =
     (let request = charging_request a w
      in case handle_resource_request c request w of
           (success, w1) \<Rightarrow>
             (request,
              if success = Some True
              then upd a (\<lambda>ag. ag\<lparr>battery_level := 100\<rparr>)
                     (upd a (\<lambda>ag. ag\<lparr>state := CHARGING\<rparr>) w1)
              else w1))"

fun compete :: "addr \<Rightarrow> addr list \<Rightarrow> world \<Rightarrow> payload list \<times> world" where
  "compete c [] w = ([], w)"
| "compete c (a # as) w =
     (case compete_one c a w of
        (request, w1) \<Rightarrow>
          (case compete c as w1 of
             (requests, w2) \<Rightarrow> (request # requests, w2)))"

definition simulate_resource_competition :: "world \<Rightarrow> payload list \<times> world" where
  "simulate_resource_competition w =
     (if low_battery_agents w \<noteq> []
      then (case coordinator w of
              Some c \<Rightarrow> compete c (low_battery_agents w) w
            | None \<Rightarrow> ([], w))
      else ([], w))"

text \<open>The \<open>for agent in self.agents.values()\<close> loop of \<open>simulate_step\<close>.\<close>

fun process_all :: "addr list \<Rightarrow> world \<Rightarrow> unit result option" where
  "process_all [] w = Some (Inr (), w)"
| "process_all (a # as) w =
     (case process_messages a w of
        None \<Rightarrow> None
      | Some (Inl e, w1) \<Rightarrow> Some (Inl e, w1)
      | Some (Inr _, w1) \<Rightarrow> process_all as w1)"

definition simulate_step :: "world \<Rightarrow> unit result option" where
  "simulate_step w =
     (case process_all (dict_values (agents w)) w of
        None \<Rightarrow> None
      | Some (Inl e, w1) \<Rightarrow> Some (Inl e, w1)
      | Some (Inr _, w1) \<Rightarrow> Some (Inr (), snd (simulate_resource_competition w1)))"

subsection \<open>Runs of the simulation\<close>

text \<open>
  The operations that the driver, the bus and the agents invoke on a world. An operation
  that raises leaves the world as mutated up to the raise, and the run goes on from there
  (a caller may catch the error). \<open>None\<close> stands for an operation that does not return.
\<close>

datatype op =
    AddAgent addr
  | RouteMessage message
  | ProcessOrder payload
  | SimulateStep
  | SendMessage addr string string payload int
  | ReceiveMessage addr message
  | ProcessMessages addr
  | HandleMessage addr message
  | UpdateBattery addr int

fun run_op :: "op \<Rightarrow> world \<Rightarrow> world option" where
  "run_op (AddAgent a) w = Some (add_agent a w)"
| "run_op (RouteMessage msg) w = Some (route_message msg w)"
| "run_op (ProcessOrder order) w = Some (snd (process_order order w))"
| "run_op SimulateStep w = map_option snd (simulate_step w)"
| "run_op (SendMessage a rid mtype c now) w = Some (send_message a rid mtype c now w)"
| "run_op (ReceiveMessage a msg) w = Some (receive_message a msg w)"
| "run_op (ProcessMessages a) w = map_option snd (process_messages a w)"
| "run_op (HandleMessage a msg) w = Some (snd (handle_message a msg w))"
| "run_op (UpdateBattery a n) w = Some (update_battery a n w)"

fun run :: "op list \<Rightarrow> world \<Rightarrow> world option" where
  "run [] w = Some w"
| "run (x # xs) w = (case run_op x w of None \<Rightarrow> None | Some w1 \<Rightarrow> run xs w1)"

text \<open>An object as its constructor leaves it.\<close>

definition fresh_object :: "agent \<Rightarrow> bool" where
  "fresh_object ag \<longleftrightarrow>
     ag = BaseAgent_init BaseAgent (agent_id ag) (agent_type ag) (position ag)
     \<or> ag = PickerAgent_init (agent_id ag) (position ag)
     \<or> ag = TransportAgent_init (agent_id ag) (position ag)
     \<or> ag = CoordinatorAgent_init (agent_id ag)"

text \<open>
  The reachable worlds: a new system over newly constructed objects, and whatever the
  operations make of it.
\<close>

inductive reachable :: "world \<Rightarrow> bool" where
  init: "(\<And>a. fresh_object (objs a)) \<Longrightarrow> reachable (MultiAgentSystem_init objs sd)"
| step: "reachable w \<Longrightarrow> run_op x w = Some w1 \<Longrightarrow> reachable w1"

subsection \<open>Invariants and observations used in the statements\<close>

text \<open>What no operation but \<open>add_agent\<close> changes.\<close>

definition same_shape :: "world \<Rightarrow> world \<Rightarrow> bool" where
  "same_shape w w1 \<longleftrightarrow>
     agents w1 = agents w \<and> coordinator w1 = coordinator w
     \<and> (\<forall>a. cls (store w1 a) = cls (store w a)
            \<and> agent_id (store w1 a) = agent_id (store w a)
            \<and> agent_registry (store w1 a) = agent_registry (store w a)
            \<and> carrying_capacity (store w1 a) = carrying_capacity (store w a)
            \<and> charging_stations (store w1 a) = charging_stations (store w a))"

text \<open>What the handlers of task and resource requests leave alone.\<close>

definition untouched :: "world \<Rightarrow> world \<Rightarrow> bool" where
  "untouched w w1 \<longleftrightarrow>
     (\<forall>a. message_queue (store w1 a) = message_queue (store w a)
          \<and> pending_orders (store w1 a) = pending_orders (store w a))"

text \<open>The station pool of a coordinator and the load of a picker are within bounds.\<close>

definition agent_ok :: "agent \<Rightarrow> bool" where
  "agent_ok ag \<longleftrightarrow>
     (cls ag = CoordinatorAgent \<longrightarrow>
        0 \<le> available_stations ag \<and> available_stations ag \<le> charging_stations ag)
     \<and> (cls ag = PickerAgent \<longrightarrow> current_load ag \<le> carrying_capacity ag)"

definition agents_ok :: "world \<Rightarrow> bool" where
  "agents_ok w \<longleftrightarrow> (\<forall>a. agent_ok (store w a))"

text \<open>
  The system's dictionary is keyed by the identifier of the object it holds, its
  coordinator is a \<open>CoordinatorAgent\<close>, and nothing is registered while there is none.
\<close>

definition mas_ok :: "world \<Rightarrow> bool" where
  "mas_ok w \<longleftrightarrow>
     distinct (map fst (agents w))
     \<and> (\<forall>(k, a) \<in> set (agents w). agent_id (store w a) = k)
     \<and> (\<forall>c. coordinator w = Some c \<longrightarrow> cls (store w c) = CoordinatorAgent)
     \<and> (coordinator w = None \<longrightarrow> (\<forall>a. agent_registry (store w a) = []))"

text \<open>The object at an address is in state \<open>CHARGING\<close>.\<close>

definition charging :: "addr \<Rightarrow> world \<Rightarrow> bool" where
  "charging p w \<longleftrightarrow> state (store w p) = CHARGING"

text \<open>The object at an address is in no coordinator's registry.\<close>

definition unregistered :: "addr \<Rightarrow> world \<Rightarrow> bool" where
  "unregistered p w \<longleftrightarrow> (\<forall>c. p \<notin> set (dict_values (agent_registry (store w c))))"

text \<open>
  Spec 4.2 and 8.1, in the spec's words: the messages \<open>ms\<close> are handed to the handler one
  after the other in list order, each taken off the queue first; a handler that raises ends
  the pass.
\<close>

fun dispatch_in_order ::
  "(addr \<Rightarrow> message \<Rightarrow> world \<Rightarrow> unit result) \<Rightarrow> addr \<Rightarrow> message list \<Rightarrow> world \<Rightarrow> unit result" where
  "dispatch_in_order handler self [] w = (Inr (), w)"
| "dispatch_in_order handler self (msg # ms) w =
     (case handler self msg (upd self (\<lambda>ag. ag\<lparr>message_queue := tl (message_queue ag)\<rparr>) w) of
        (Inl e, w1) \<Rightarrow> (Inl e, w1)
      | (Inr _, w1) \<Rightarrow> dispatch_in_order handler self ms w1)"

subsection \<open>The demonstration roster\<close>

text \<open>
  The objects of \<open>run_mas_simulation\<close>, with one picker and one transporter: the
  coordinator at address 0, the picker at (2,3) at address 1, the transporter at (1,1) at
  address 2; every other address holds a plain new \<open>BaseAgent\<close>.
\<close>

definition roster :: "addr \<Rightarrow> agent" where
  "roster = (\<lambda>_. BaseAgent_init BaseAgent ''SPARE'' ''Base'' (0, 0))
     (0 := CoordinatorAgent_init ''COORD_01'',
      1 := PickerAgent_init ''PICKER_01'' (2, 3),
      2 := TransportAgent_init ''TRANSPORT_01'' (1, 1))"

definition new_system :: world where
  "new_system = MultiAgentSystem_init roster (\<lambda>_. 0)"

definition scenario :: world where
  "scenario = add_agent 2 (add_agent 1 (add_agent 0 new_system))"

definition order3 :: payload where
  "order3 = empty_dict\<lparr>order_id := Some ''ORD_001'',
     items := Some [''item1'', ''item2'', ''item3''], priority := Some ''high''\<rparr>"

definition transport3 :: payload where
  "transport3 = empty_dict\<lparr>pickup_location := Some (2, 3),
     delivery_location := Some (5, 5), item_count := Some 3\<rparr>"


text \<open>
  Worlds used as concrete inputs: \<open>loaded\<close> is the scenario after the picker has handled
  a pick request for eight items; \<open>exhausted\<close> is the scenario after the coordinator has
  handled three resource requests; \<open>drained\<close> and \<open>weary\<close> are the scenario after the
  picker's battery has gone down to 15 and to 25; \<open>queued\<close> is the scenario after the
  picker has received a pick request for eight items, then one for three items, then a
  \<open>PING\<close>, which no class handles.
\<close>

definition pick8 :: message where
  "pick8 = \<lparr>sender_id = ''COORD_01'', receiver_id = ''PICKER_01'',
     message_type = ''PICK_REQUEST'',
     content = empty_dict\<lparr>items := Some [''a'', ''b'', ''c'', ''d'', ''e'', ''f'', ''g'', ''h''],
                           location := Some (4, 4)\<rparr>,
     timestamp = 0\<rparr>"

definition station_msg :: message where
  "station_msg = \<lparr>sender_id = ''PICKER_01'', receiver_id = ''COORD_01'',
     message_type = ''RESOURCE_REQUEST'',
     content = empty_dict\<lparr>resource_type := Some ''charging_station'',
                           req_agent_id := Some ''PICKER_01''\<rparr>,
     timestamp = 0\<rparr>"

definition loaded :: world where
  "loaded = snd (handle_message 1 pick8 scenario)"

definition exhausted :: world where
  "exhausted = snd (handle_message 0 station_msg
                 (snd (handle_message 0 station_msg
                   (snd (handle_message 0 station_msg scenario)))))"

definition drained :: world where
  "drained = update_battery 1 85 scenario"

definition weary :: world where
  "weary = update_battery 1 75 scenario"

text \<open>\<open>stranded\<close>: no station is left and the picker's battery is at 15.\<close>

definition stranded :: world where
  "stranded = update_battery 1 85 exhausted"

definition pick3 :: message where
  "pick3 = \<lparr>sender_id = ''COORD_01'', receiver_id = ''PICKER_01'',
     message_type = ''PICK_REQUEST'',
     content = empty_dict\<lparr>items := Some [''item1'', ''item2'', ''item3''],
                           location := Some (6, 6)\<rparr>,
     timestamp = 1\<rparr>"



definition notice :: message where
  "notice = \<lparr>sender_id = ''COORD_01'', receiver_id = ''ALL'',
     message_type = ''STATUS_UPDATE'',
     content = empty_dict\<lparr>status := Some ''open''\<rparr>, timestamp = 2\<rparr>"




text \<open>
  The roster with the picker added before the coordinator: the picker, then the
  coordinator, then the transporter.
\<close>

definition late_coordinator :: world where
  "late_coordinator = add_agent 2 (add_agent 0 (add_agent 1 new_system))"

text \<open>\<open>readded\<close>: the picker is added once more, now that the coordinator exists.\<close>

definition readded :: world where
  "readded = add_agent 1 late_coordinator"

section \<open>Properties\<close>

subsection \<open>The store\<close>

lemma store_upd: "store (upd a f w) b = (if b = a then f (store w a) else store w b)"
  by (simp add: upd_def)

lemma upd_fields:
  "agents (upd a f w) = agents w"
  "coordinator (upd a f w) = coordinator w"
  "message_log (upd a f w) = message_log w"
  "total_messages (upd a f w) = total_messages w"
  "orders_processed (upd a f w) = orders_processed w"
  "seed (upd a f w) = seed w"
  "draws (upd a f w) = draws w"
  by (simp_all add: upd_def)

subsection \<open>What only add\_agent changes\<close>

lemma same_shape_refl: "same_shape w w"
  by (simp add: same_shape_def)

lemma same_shape_trans: "same_shape w w1 \<Longrightarrow> same_shape w1 w2 \<Longrightarrow> same_shape w w2"
  by (simp add: same_shape_def)

lemma shape_update_battery: "same_shape w0 w \<Longrightarrow> same_shape w0 (update_battery a n w)"
  by (simp add: update_battery_def same_shape_def store_upd upd_fields)

lemma shape_receive_message: "same_shape w0 w \<Longrightarrow> same_shape w0 (receive_message a m w)"
  by (simp add: receive_message_def same_shape_def store_upd upd_fields)

lemma shape_randint: "same_shape w0 w \<Longrightarrow> same_shape w0 (snd (randint lo hi w))"
  by (simp add: randint_def same_shape_def)

lemma shape_move_to_location: "same_shape w0 w \<Longrightarrow> same_shape w0 (snd (move_to_location a p w))"
  by (simp add: move_to_location_def update_battery_def same_shape_def store_upd upd_fields)

lemma shape_handle_pick_request:
  "same_shape w0 w \<Longrightarrow> same_shape w0 (snd (handle_pick_request a r w))"
  by (simp add: handle_pick_request_def move_to_location_def pick_items_def update_battery_def
      same_shape_def store_upd upd_fields Let_def)

lemma shape_handle_collaboration_request:
  "same_shape w0 w \<Longrightarrow> same_shape w0 (snd (handle_collaboration_request a r w))"
  by (simp add: handle_collaboration_request_def same_shape_def store_upd upd_fields)

lemma shape_handle_transport_request:
  "same_shape w0 w \<Longrightarrow> same_shape w0 (snd (handle_transport_request a r w))"
  by (simp add: handle_transport_request_def execute_transport_def move_to_location_def
      update_battery_def same_shape_def store_upd upd_fields Let_def)

lemma shape_handle_resource_request:
  "same_shape w0 w \<Longrightarrow> same_shape w0 (snd (handle_resource_request a r w))"
  by (simp add: handle_resource_request_def same_shape_def store_upd upd_fields Let_def)

lemma shape_allocate_tasks:
  "same_shape w0 w \<Longrightarrow> same_shape w0 (snd (allocate_tasks c order w))"
  by (simp add: allocate_tasks_def Let_def case_prod_beta shape_randint
      shape_handle_pick_request shape_handle_transport_request
      split: list.splits sum.splits)

lemma shape_handle_order_request:
  "same_shape w0 w \<Longrightarrow> same_shape w0 (snd (handle_order_request c order w))"
proof -
  assume "same_shape w0 w"
  then have "same_shape w0 (upd c (\<lambda>ag. ag\<lparr>pending_orders := pending_orders ag @ [order]\<rparr>) w)"
    by (simp add: same_shape_def store_upd upd_fields)
  then show ?thesis
    by (simp add: handle_order_request_def shape_allocate_tasks)
qed

lemma shape_handle_message:
  "same_shape w0 w \<Longrightarrow> same_shape w0 (snd (handle_message a m w))"
  by (simp add: handle_message_def PickerAgent_handle_message_def
      TransportAgent_handle_message_def CoordinatorAgent_handle_message_def
      handle_pickup_ready_def handle_status_update_def
      shape_handle_pick_request shape_handle_collaboration_request
      shape_handle_transport_request shape_handle_order_request
      shape_handle_resource_request split: agent_class.splits)


subsection \<open>Queues and pending lists under the handlers\<close>

lemma untouched_refl: "untouched w w"
  by (simp add: untouched_def)

lemma quiet_randint: "untouched w0 w \<Longrightarrow> untouched w0 (snd (randint lo hi w))"
  by (simp add: randint_def untouched_def)

lemma quiet_handle_pick_request:
  "untouched w0 w \<Longrightarrow> untouched w0 (snd (handle_pick_request a r w))"
  by (simp add: handle_pick_request_def move_to_location_def pick_items_def update_battery_def
      untouched_def store_upd Let_def)

lemma quiet_handle_collaboration_request:
  "untouched w0 w \<Longrightarrow> untouched w0 (snd (handle_collaboration_request a r w))"
  by (simp add: handle_collaboration_request_def untouched_def store_upd)

lemma quiet_handle_transport_request:
  "untouched w0 w \<Longrightarrow> untouched w0 (snd (handle_transport_request a r w))"
  by (simp add: handle_transport_request_def execute_transport_def move_to_location_def
      update_battery_def untouched_def store_upd Let_def)

lemma quiet_handle_resource_request:
  "untouched w0 w \<Longrightarrow> untouched w0 (snd (handle_resource_request a r w))"
  by (simp add: handle_resource_request_def untouched_def store_upd Let_def)

lemma quiet_allocate_tasks:
  "untouched w0 w \<Longrightarrow> untouched w0 (snd (allocate_tasks c order w))"
  by (simp add: allocate_tasks_def Let_def case_prod_beta quiet_randint
      quiet_handle_pick_request quiet_handle_transport_request
      split: list.splits sum.splits)

lemma queue_handle_order_request:
  "message_queue (store (snd (handle_order_request c order w)) b) = message_queue (store w b)"
proof -
  let ?w1 = "upd c (\<lambda>ag. ag\<lparr>pending_orders := pending_orders ag @ [order]\<rparr>) w"
  have "untouched ?w1 (snd (allocate_tasks c order ?w1))"
    by (rule quiet_allocate_tasks) (rule untouched_refl)
  then have "message_queue (store (snd (allocate_tasks c order ?w1)) b)
             = message_queue (store ?w1 b)"
    by (simp add: untouched_def)
  then show ?thesis
    by (simp add: handle_order_request_def store_upd)
qed

lemma queue_handle_message:
  "message_queue (store (snd (handle_message a m w)) b) = message_queue (store w b)"
proof -
  have u: "\<And>w1. untouched w w1 \<Longrightarrow> message_queue (store w1 b) = message_queue (store w b)"
    by (simp add: untouched_def)
  show ?thesis
    by (simp add: handle_message_def PickerAgent_handle_message_def
        TransportAgent_handle_message_def CoordinatorAgent_handle_message_def
        handle_pickup_ready_def handle_status_update_def queue_handle_order_request
        u[OF quiet_handle_pick_request[OF untouched_refl]]
        u[OF quiet_handle_collaboration_request[OF untouched_refl]]
        u[OF quiet_handle_transport_request[OF untouched_refl]]
        u[OF quiet_handle_resource_request[OF untouched_refl]]
        split: agent_class.splits)
qed

subsection \<open>The message loop\<close>

lemma process_messages_with_dispatch:
  assumes keep: "\<And>m w1. message_queue (store (snd (handler a m w1)) a) = message_queue (store w1 a)"
  shows "message_queue (store w a) = ms \<Longrightarrow>
         process_messages_with handler a w = Some (dispatch_in_order handler a ms w)"
proof (induction ms arbitrary: w)
  case Nil
  then show ?case
    by (subst process_messages_with.simps) simp
next
  case (Cons m ms)
  let ?w0 = "upd a (\<lambda>ag. ag\<lparr>message_queue := ms\<rparr>) w"
  have pop: "upd a (\<lambda>ag. ag\<lparr>message_queue := tl (message_queue ag)\<rparr>) w = ?w0"
    using Cons.prems by (simp add: upd_def)
  obtain r w1 where h: "handler a m ?w0 = (r, w1)"
    by (cases "handler a m ?w0")
  have q: "message_queue (store w1 a) = ms"
    using keep[of m ?w0] h by (simp add: store_upd)
  show ?case
  proof (cases r)
    case (Inl e)
    then show ?thesis
      using Cons.prems h pop by (subst process_messages_with.simps) simp
  next
    case (Inr u)
    then show ?thesis
      using Cons.prems h pop Cons.IH[OF q] by (subst process_messages_with.simps) simp
  qed
qed

lemma process_messages_dispatch:
  "process_messages a w
   = Some (dispatch_in_order handle_message a (message_queue (store w a)) w)"
  unfolding process_messages_def
  by (rule process_messages_with_dispatch) (simp_all add: queue_handle_message)

lemma dispatch_in_order_preserves:
  assumes h: "\<And>m w1. P w1 \<Longrightarrow> P (snd (handler a m w1))"
    and pop: "\<And>w1. P w1 \<Longrightarrow> P (upd a (\<lambda>ag. ag\<lparr>message_queue := tl (message_queue ag)\<rparr>) w1)"
  shows "P w \<Longrightarrow> P (snd (dispatch_in_order handler a ms w))"
proof (induction ms arbitrary: w)
  case Nil
  then show ?case by simp
next
  case (Cons m ms)
  let ?w0 = "upd a (\<lambda>ag. ag\<lparr>message_queue := tl (message_queue ag)\<rparr>) w"
  have "P (snd (handler a m ?w0))"
    using Cons.prems by (intro h pop)
  then show ?case
    using Cons.IH[of "snd (handler a m ?w0)"]
    by (cases "handler a m ?w0") (auto split: sum.splits)
qed

lemma process_messages_preserves:
  assumes h: "\<And>m w1. P w1 \<Longrightarrow> P (snd (handle_message a m w1))"
    and pop: "\<And>w1. P w1 \<Longrightarrow> P (upd a (\<lambda>ag. ag\<lparr>message_queue := tl (message_queue ag)\<rparr>) w1)"
    and "P w" and "process_messages a w = Some r"
  shows "P (snd r)"
  using assms dispatch_in_order_preserves[of P handle_message a w "message_queue (store w a)"]
  by (simp add: process_messages_dispatch)

lemma process_all_total: "\<exists>r. process_all as w = Some r"
  by (induction as arbitrary: w) (auto simp: process_messages_dispatch split: sum.splits prod.splits)

lemma process_all_preserves:
  assumes h: "\<And>a m w1. P w1 \<Longrightarrow> P (snd (handle_message a m w1))"
    and pop: "\<And>a w1. P w1 \<Longrightarrow> P (upd a (\<lambda>ag. ag\<lparr>message_queue := tl (message_queue ag)\<rparr>) w1)"
  shows "P w \<Longrightarrow> process_all as w = Some r \<Longrightarrow> P (snd r)"
proof (induction as arbitrary: w)
  case Nil
  then show ?case by auto
next
  case (Cons a as)
  obtain r1 where r1: "process_messages a w = Some r1"
    by (simp add: process_messages_dispatch)
  have p1: "P (snd r1)"
    using process_messages_preserves[of P a w r1] h pop Cons.prems(1) r1 by blast
  show ?case
  proof (cases "fst r1")
    case (Inl e)
    then show ?thesis
      using Cons.prems(2) r1 p1 by (cases r1) auto
  next
    case (Inr u)
    then show ?thesis
      using Cons.prems(2) r1 p1 Cons.IH[of "snd r1"] by (cases r1) auto
  qed
qed


subsection \<open>The remaining operations keep the shape\<close>

lemma shape_pop:
  "same_shape w0 w \<Longrightarrow>
   same_shape w0 (upd a (\<lambda>ag. ag\<lparr>message_queue := tl (message_queue ag)\<rparr>) w)"
  by (simp add: same_shape_def store_upd upd_fields)

lemma shape_process_messages:
  "same_shape w0 w \<Longrightarrow> process_messages a w = Some r \<Longrightarrow> same_shape w0 (snd r)"
  by (rule process_messages_preserves[of "same_shape w0"])
     (simp_all add: shape_handle_message shape_pop)

lemma shape_process_all:
  "same_shape w0 w \<Longrightarrow> process_all as w = Some r \<Longrightarrow> same_shape w0 (snd r)"
  by (rule process_all_preserves[of "same_shape w0"])
     (simp_all add: shape_handle_message shape_pop)

lemma compete_world:
  "snd (compete c [] w) = w"
  "snd (compete c (a # as) w) = snd (compete c as (snd (compete_one c a w)))"
  by (simp_all add: case_prod_beta)

lemma shape_compete_one: "same_shape w0 w \<Longrightarrow> same_shape w0 (snd (compete_one c a w))"
  by (simp add: compete_one_def handle_resource_request_def charging_request_def empty_dict_def
      same_shape_def store_upd upd_fields Let_def)

lemma shape_compete: "same_shape w0 w \<Longrightarrow> same_shape w0 (snd (compete c as w))"
  by (induction as arbitrary: w) (simp_all only: compete_world shape_compete_one)

lemma shape_simulate_resource_competition:
  "same_shape w0 w \<Longrightarrow> same_shape w0 (snd (simulate_resource_competition w))"
  by (simp add: simulate_resource_competition_def shape_compete split: option.splits)

lemma simulate_step_total: "\<exists>r. simulate_step w = Some r"
  using process_all_total[of "dict_values (agents w)" w]
  by (auto simp: simulate_step_def split: sum.splits)

lemma shape_simulate_step:
  "same_shape w0 w \<Longrightarrow> simulate_step w = Some r \<Longrightarrow> same_shape w0 (snd r)"
  using shape_process_all[of w0 w "dict_values (agents w)"]
  by (auto simp: simulate_step_def shape_simulate_resource_competition
      split: option.splits sum.splits prod.splits)

lemma shape_broadcast: "same_shape w0 w \<Longrightarrow> same_shape w0 (broadcast m as w)"
  by (induction as arbitrary: w) (simp_all add: shape_receive_message)

lemma shape_route_message: "same_shape w0 w \<Longrightarrow> same_shape w0 (route_message m w)"
proof -
  assume s: "same_shape w0 w"
  let ?w2 = "w\<lparr>message_log := message_log w @ [m], total_messages := total_messages w + 1\<rparr>"
  have "same_shape w0 ?w2"
    using s by (simp add: same_shape_def)
  then show ?thesis
    by (simp add: route_message_def Let_def shape_broadcast shape_receive_message
        split: option.splits)
qed

lemma shape_send_message:
  "same_shape w0 w \<Longrightarrow> same_shape w0 (send_message a rid mtype c now w)"
proof -
  assume "same_shape w0 w"
  then have "same_shape w0 (route_message
      \<lparr>sender_id = agent_id (store w a), receiver_id = rid, message_type = mtype,
       content = c, timestamp = now\<rparr> w)"
    by (rule shape_route_message)
  then show ?thesis
    by (simp add: send_message_def same_shape_def store_upd upd_fields)
qed

lemma shape_process_order: "same_shape w0 w \<Longrightarrow> same_shape w0 (snd (process_order order w))"
proof -
  assume s: "same_shape w0 w"
  have "same_shape w0 (w\<lparr>orders_processed := orders_processed w + 1\<rparr>)"
    using s by (simp add: same_shape_def)
  then show ?thesis
    by (simp add: process_order_def Let_def shape_handle_order_request split: option.splits)
qed

lemma run_op_total: "\<exists>w1. run_op x w = Some w1"
  using simulate_step_total[of w]
  by (cases x) (auto simp: process_messages_dispatch)

lemma run_total: "\<exists>w1. run xs w = Some w1"
proof (induction xs arbitrary: w)
  case Nil
  then show ?case by simp
next
  case (Cons x xs)
  obtain w1 where "run_op x w = Some w1"
    using run_op_total by blast
  then show ?case
    using Cons.IH[of w1] by simp
qed

lemma shape_run_op:
  assumes "\<forall>a. x \<noteq> AddAgent a" and "run_op x w = Some w1"
  shows "same_shape w w1"
proof (cases x)
  case (AddAgent a)
  then show ?thesis using assms by simp
next
  case (RouteMessage m)
  then show ?thesis using assms shape_route_message[OF same_shape_refl] by auto
next
  case (ProcessOrder order)
  then show ?thesis using assms shape_process_order[OF same_shape_refl] by auto
next
  case SimulateStep
  then show ?thesis using assms shape_simulate_step[OF same_shape_refl] by auto
next
  case (SendMessage a rid mtype c now)
  then show ?thesis using assms shape_send_message[OF same_shape_refl] by auto
next
  case (ReceiveMessage a m)
  then show ?thesis using assms shape_receive_message[OF same_shape_refl] by auto
next
  case (ProcessMessages a)
  then show ?thesis using assms shape_process_messages[OF same_shape_refl] by auto
next
  case (HandleMessage a m)
  then show ?thesis using assms shape_handle_message[OF same_shape_refl] by auto
next
  case (UpdateBattery a n)
  then show ?thesis using assms shape_update_battery[OF same_shape_refl] by auto
qed

subsection \<open>Bounds of the station pool and of the load\<close>

lemma ok_upd:
  "agents_ok w \<Longrightarrow> agent_ok (f (store w a)) \<Longrightarrow> agents_ok (upd a f w)"
  by (simp add: agents_ok_def store_upd)

lemma ok_update_battery: "agents_ok w \<Longrightarrow> agents_ok (update_battery a n w)"
  by (simp add: update_battery_def agents_ok_def agent_ok_def store_upd)

lemma ok_receive_message: "agents_ok w \<Longrightarrow> agents_ok (receive_message a m w)"
  by (simp add: receive_message_def agents_ok_def agent_ok_def store_upd)

lemma ok_pop:
  "agents_ok w \<Longrightarrow> agents_ok (upd a (\<lambda>ag. ag\<lparr>message_queue := tl (message_queue ag)\<rparr>) w)"
  by (simp add: agents_ok_def agent_ok_def store_upd)

lemma ok_randint: "agents_ok w \<Longrightarrow> agents_ok (snd (randint lo hi w))"
  by (simp add: randint_def agents_ok_def)

lemma ok_handle_pick_request: "agents_ok w \<Longrightarrow> agents_ok (snd (handle_pick_request a r w))"
  by (simp add: handle_pick_request_def move_to_location_def pick_items_def update_battery_def
      agents_ok_def agent_ok_def store_upd Let_def)

lemma ok_handle_collaboration_request:
  "agents_ok w \<Longrightarrow> agents_ok (snd (handle_collaboration_request a r w))"
  by (simp add: handle_collaboration_request_def agents_ok_def agent_ok_def store_upd)

lemma ok_handle_transport_request:
  "agents_ok w \<Longrightarrow> agents_ok (snd (handle_transport_request a r w))"
  by (simp add: handle_transport_request_def execute_transport_def move_to_location_def
      update_battery_def agents_ok_def agent_ok_def store_upd Let_def)

lemma ok_handle_resource_request:
  assumes "agents_ok w"
  shows "agents_ok (snd (handle_resource_request a r w))"
proof -
  have "agent_ok (store w a)"
    using assms by (simp add: agents_ok_def)
  then have "0 < available_stations (store w a) \<Longrightarrow>
      agent_ok ((store w a)\<lparr>available_stations := available_stations (store w a) - 1\<rparr>)"
    by (auto simp: agent_ok_def)
  then show ?thesis
    using assms by (simp add: handle_resource_request_def Let_def ok_upd)
qed

lemma ok_allocate_tasks: "agents_ok w \<Longrightarrow> agents_ok (snd (allocate_tasks c order w))"
  by (simp add: allocate_tasks_def Let_def case_prod_beta ok_randint
      ok_handle_pick_request ok_handle_transport_request
      split: list.splits sum.splits)

lemma ok_handle_order_request:
  "agents_ok w \<Longrightarrow> agents_ok (snd (handle_order_request c order w))"
proof -
  assume "agents_ok w"
  then have "agents_ok (upd c (\<lambda>ag. ag\<lparr>pending_orders := pending_orders ag @ [order]\<rparr>) w)"
    by (simp add: agents_ok_def agent_ok_def store_upd)
  then show ?thesis
    by (simp add: handle_order_request_def ok_allocate_tasks)
qed

lemma ok_handle_message: "agents_ok w \<Longrightarrow> agents_ok (snd (handle_message a m w))"
  by (simp add: handle_message_def PickerAgent_handle_message_def
      TransportAgent_handle_message_def CoordinatorAgent_handle_message_def
      handle_pickup_ready_def handle_status_update_def
      ok_handle_pick_request ok_handle_collaboration_request
      ok_handle_transport_request ok_handle_order_request
      ok_handle_resource_request split: agent_class.splits)

lemma ok_compete_one:
  assumes "agents_ok w"
  shows "agents_ok (snd (compete_one c a w))"
proof -
  let ?w1 = "snd (handle_resource_request c (charging_request a w) w)"
  have w1: "agents_ok ?w1"
    using assms by (rule ok_handle_resource_request)
  then have "agents_ok (upd a (\<lambda>ag. ag\<lparr>battery_level := 100\<rparr>)
                         (upd a (\<lambda>ag. ag\<lparr>state := CHARGING\<rparr>) ?w1))"
    by (simp add: agents_ok_def agent_ok_def store_upd)
  then show ?thesis
    using w1 by (simp add: compete_one_def case_prod_beta Let_def)
qed

lemma ok_compete: "agents_ok w \<Longrightarrow> agents_ok (snd (compete c as w))"
  by (induction as arbitrary: w) (simp_all only: compete_world ok_compete_one)

lemma ok_simulate_resource_competition:
  "agents_ok w \<Longrightarrow> agents_ok (snd (simulate_resource_competition w))"
  by (simp add: simulate_resource_competition_def ok_compete split: option.splits)

lemma ok_simulate_step:
  "agents_ok w \<Longrightarrow> simulate_step w = Some r \<Longrightarrow> agents_ok (snd r)"
  using process_all_preserves[of agents_ok w "dict_values (agents w)"]
  by (auto simp: simulate_step_def ok_simulate_resource_competition ok_handle_message ok_pop
      split: option.splits sum.splits prod.splits)

lemma ok_broadcast: "agents_ok w \<Longrightarrow> agents_ok (broadcast m as w)"
  by (induction as arbitrary: w) (simp_all add: ok_receive_message)

lemma ok_route_message: "agents_ok w \<Longrightarrow> agents_ok (route_message m w)"
proof -
  assume s: "agents_ok w"
  let ?w2 = "w\<lparr>message_log := message_log w @ [m], total_messages := total_messages w + 1\<rparr>"
  have "agents_ok ?w2"
    using s by (simp add: agents_ok_def)
  then show ?thesis
    by (simp add: route_message_def Let_def ok_broadcast ok_receive_message
        split: option.splits)
qed

lemma ok_send_message: "agents_ok w \<Longrightarrow> agents_ok (send_message a rid mtype c now w)"
proof -
  assume "agents_ok w"
  then have "agents_ok (route_message
      \<lparr>sender_id = agent_id (store w a), receiver_id = rid, message_type = mtype,
       content = c, timestamp = now\<rparr> w)"
    by (rule ok_route_message)
  then show ?thesis
    by (simp add: send_message_def agents_ok_def agent_ok_def store_upd)
qed

lemma ok_process_order: "agents_ok w \<Longrightarrow> agents_ok (snd (process_order order w))"
proof -
  assume s: "agents_ok w"
  have "agents_ok (w\<lparr>orders_processed := orders_processed w + 1\<rparr>)"
    using s by (simp add: agents_ok_def)
  then show ?thesis
    by (simp add: process_order_def Let_def ok_handle_order_request split: option.splits)
qed

lemma ok_add_agent: "agents_ok w \<Longrightarrow> agents_ok (add_agent a w)"
  by (simp add: add_agent_def register_agent_def Let_def agents_ok_def agent_ok_def
      store_upd split: option.splits)

lemma ok_run_op:
  assumes "agents_ok w" and "run_op x w = Some w1"
  shows "agents_ok w1"
proof (cases x)
  case (AddAgent a)
  then show ?thesis using assms ok_add_agent by auto
next
  case (RouteMessage m)
  then show ?thesis using assms ok_route_message by auto
next
  case (ProcessOrder order)
  then show ?thesis using assms ok_process_order by auto
next
  case SimulateStep
  then show ?thesis using assms ok_simulate_step by auto
next
  case (SendMessage a rid mtype c now)
  then show ?thesis using assms ok_send_message by auto
next
  case (ReceiveMessage a m)
  then show ?thesis using assms ok_receive_message by auto
next
  case (ProcessMessages a)
  then show ?thesis
    using assms process_messages_preserves[of agents_ok a w] ok_handle_message ok_pop by auto
next
  case (HandleMessage a m)
  then show ?thesis using assms ok_handle_message by auto
next
  case (UpdateBattery a n)
  then show ?thesis using assms ok_update_battery by auto
qed

lemma fresh_object_fields:
  assumes "fresh_object ag"
  shows "agent_registry ag = []"
    and "cls ag = CoordinatorAgent \<longrightarrow> available_stations ag = 3 \<and> charging_stations ag = 3"
    and "cls ag = PickerAgent \<longrightarrow> current_load ag = 0 \<and> carrying_capacity ag = 10"
proof -
  let ?b = "BaseAgent_init BaseAgent (agent_id ag) (agent_type ag) (position ag)"
  let ?p = "PickerAgent_init (agent_id ag) (position ag)"
  let ?t = "TransportAgent_init (agent_id ag) (position ag)"
  let ?c = "CoordinatorAgent_init (agent_id ag)"
  have all: "agent_registry ag = []
     \<and> (cls ag = CoordinatorAgent \<longrightarrow> available_stations ag = 3 \<and> charging_stations ag = 3)
     \<and> (cls ag = PickerAgent \<longrightarrow> current_load ag = 0 \<and> carrying_capacity ag = 10)"
    if "ag = x" and "x = ?b \<or> x = ?p \<or> x = ?t \<or> x = ?c" for x
    unfolding \<open>ag = x\<close> using that(2)
    by (auto simp: BaseAgent_init_def PickerAgent_init_def TransportAgent_init_def
        CoordinatorAgent_init_def)
  have "ag = ?b \<or> ag = ?p \<or> ag = ?t \<or> ag = ?c"
    using assms by (simp add: fresh_object_def)
  then have "\<exists>x. ag = x \<and> (x = ?b \<or> x = ?p \<or> x = ?t \<or> x = ?c)"
    by blast
  then obtain x where "ag = x" and "x = ?b \<or> x = ?p \<or> x = ?t \<or> x = ?c"
    by blast
  from all[OF this]
  show "agent_registry ag = []"
    and "cls ag = CoordinatorAgent \<longrightarrow> available_stations ag = 3 \<and> charging_stations ag = 3"
    and "cls ag = PickerAgent \<longrightarrow> current_load ag = 0 \<and> carrying_capacity ag = 10"
    by simp_all
qed

lemma fresh_object_ok: "fresh_object ag \<Longrightarrow> agent_ok ag"
  using fresh_object_fields[of ag] by (simp add: agent_ok_def)

lemma reachable_agents_ok: "reachable w \<Longrightarrow> agents_ok w"
proof (induction rule: reachable.induct)
  case (init objs sd)
  then show ?case
    by (simp add: agents_ok_def MultiAgentSystem_init_def fresh_object_ok)
next
  case (step w x w1)
  then show ?case using ok_run_op by blast
qed


subsection \<open>The concrete worlds\<close>

lemma reachable_run: "reachable w \<Longrightarrow> run xs w = Some w1 \<Longrightarrow> reachable w1"
proof (induction xs arbitrary: w)
  case Nil
  then show ?case by simp
next
  case (Cons x xs)
  then show ?case
    by (auto split: option.splits intro: reachable.step)
qed

lemma fresh_roster: "fresh_object (roster a)"
  by (simp add: roster_def fresh_object_def BaseAgent_init_def PickerAgent_init_def
      TransportAgent_init_def CoordinatorAgent_init_def)

lemma reachable_new_system: "reachable new_system"
  unfolding new_system_def by (rule reachable.init) (rule fresh_roster)

lemma reachable_scenario: "reachable scenario"
proof -
  have "run [AddAgent 0, AddAgent 1, AddAgent 2] new_system = Some scenario"
    by (simp add: scenario_def)
  then show ?thesis
    using reachable_new_system reachable_run by blast
qed

lemma reachable_loaded: "reachable loaded"
proof -
  have "run [HandleMessage 1 pick8] scenario = Some loaded"
    by (simp add: loaded_def)
  then show ?thesis
    using reachable_scenario reachable_run by blast
qed

lemma reachable_exhausted: "reachable exhausted"
proof -
  have "run [HandleMessage 0 station_msg, HandleMessage 0 station_msg,
             HandleMessage 0 station_msg] scenario = Some exhausted"
    by (simp add: exhausted_def)
  then show ?thesis
    using reachable_scenario reachable_run by blast
qed

lemma reachable_drained: "reachable drained"
proof -
  have "run [UpdateBattery 1 85] scenario = Some drained"
    by (simp add: drained_def)
  then show ?thesis
    using reachable_scenario reachable_run by blast
qed

text \<open>The scenario, field by field.\<close>

lemmas roster_defs = roster_def new_system_def MultiAgentSystem_init_def BaseAgent_init_def
  PickerAgent_init_def TransportAgent_init_def CoordinatorAgent_init_def

lemma scenario_world:
  "agents scenario = [(''COORD_01'', 0), (''PICKER_01'', 1), (''TRANSPORT_01'', 2)]"
  "coordinator scenario = Some 0"
  "store scenario 0 = (CoordinatorAgent_init ''COORD_01'')
       \<lparr>agent_registry := [(''PICKER_01'', 1), (''TRANSPORT_01'', 2)]\<rparr>"
  "store scenario 1 = PickerAgent_init ''PICKER_01'' (2, 3)"
  "store scenario 2 = TransportAgent_init ''TRANSPORT_01'' (1, 1)"
  "draws scenario = 0"
  "seed scenario = (\<lambda>_. 0)"
  by (simp_all add: scenario_def add_agent_def register_agent_def upd_def Let_def roster_defs)


subsection \<open>Dictionaries\<close>

lemma dict_set_keys:
  "map fst (dict_set k v d) = (if k \<in> fst ` set d then map fst d else map fst d @ [k])"
  by (induction k v d rule: dict_set.induct) (force simp: image_iff)+

lemma dict_set_distinct: "distinct (map fst d) \<Longrightarrow> distinct (map fst (dict_set k v d))"
  by (simp add: dict_set_keys)

lemma dict_set_entries: "set (dict_set k v d) \<subseteq> insert (k, v) (set d)"
  by (induction k v d rule: dict_set.induct) (auto split: if_splits)

lemma dict_set_values: "set (dict_values (dict_set k v d)) \<subseteq> insert v (set (dict_values d))"
  using dict_set_entries[of k v d] by (fastforce simp: dict_values_def)

lemma dict_set_has: "(k, v) \<in> set (dict_set k v d)"
  by (induction d) auto

lemma dict_set_lookup: "map_of (dict_set k v d) k = Some v"
  by (induction d) auto

subsection \<open>The system's dictionary and its coordinator\<close>

lemma mas_ok_same_shape: "same_shape w w1 \<Longrightarrow> mas_ok w \<Longrightarrow> mas_ok w1"
  by (simp add: same_shape_def mas_ok_def)

lemma mas_ok_add_agent:
  assumes "mas_ok w"
  shows "mas_ok (add_agent a w)"
proof -
  let ?w1 = "w\<lparr>agents := dict_set (agent_id (store w a)) a (agents w)\<rparr>"
  have keys: "distinct (map fst (agents ?w1))"
    using assms by (simp add: mas_ok_def dict_set_distinct)
  have ids: "\<forall>(k, b) \<in> set (agents ?w1). agent_id (store w b) = k"
    using assms dict_set_entries[of "agent_id (store w a)" a "agents w"]
    by (auto simp: mas_ok_def)
  show ?thesis
  proof (cases "cls (store w a) = CoordinatorAgent")
    case True
    then show ?thesis
      using keys ids by (simp add: add_agent_def Let_def mas_ok_def)
  next
    case False
    show ?thesis
    proof (cases "coordinator w")
      case None
      then show ?thesis
        using False keys ids assms by (simp add: add_agent_def Let_def mas_ok_def)
    next
      case (Some c)
      then show ?thesis
        using False keys ids assms
        by (auto simp: add_agent_def Let_def mas_ok_def register_agent_def store_upd upd_fields)
    qed
  qed
qed

lemma mas_ok_run_op:
  assumes "mas_ok w" and "run_op x w = Some w1"
  shows "mas_ok w1"
proof (cases "\<exists>a. x = AddAgent a")
  case True
  then show ?thesis
    using assms mas_ok_add_agent by auto
next
  case False
  then have "same_shape w w1"
    using assms(2) shape_run_op by blast
  then show ?thesis
    using assms(1) mas_ok_same_shape by blast
qed

lemma reachable_mas_ok: "reachable w \<Longrightarrow> mas_ok w"
proof (induction rule: reachable.induct)
  case (init objs sd)
  then show ?case
    by (simp add: mas_ok_def MultiAgentSystem_init_def fresh_object_fields(1))
next
  case (step w x w1)
  then show ?case using mas_ok_run_op by blast
qed

lemma mas_ok_distinct_values:
  assumes "mas_ok w"
  shows "distinct (dict_values (agents w))"
proof -
  have d: "distinct (map fst (agents w))"
    and ids: "\<forall>(k, a) \<in> set (agents w). agent_id (store w a) = k"
    using assms by (simp_all add: mas_ok_def)
  have "inj_on snd (set (agents w))"
  proof (rule inj_onI)
    fix x y
    assume x: "x \<in> set (agents w)" and y: "y \<in> set (agents w)" and e: "snd x = snd y"
    have "fst x = agent_id (store w (snd x))" "fst y = agent_id (store w (snd y))"
      using ids x y by (auto simp: case_prod_beta)
    then show "x = y"
      using e by (simp add: prod_eq_iff)
  qed
  moreover have "distinct (agents w)"
    using d by (simp add: distinct_map)
  ultimately show ?thesis
    by (simp add: dict_values_def distinct_map)
qed

subsection \<open>Broadcast\<close>

lemma broadcast_fields:
  "message_log (broadcast m as w) = message_log w"
  "agents (broadcast m as w) = agents w"
  "total_messages (broadcast m as w) = total_messages w"
  by (induction as arbitrary: w) (simp_all add: receive_message_def upd_fields)

lemma broadcast_store:
  "distinct as \<Longrightarrow>
   store (broadcast m as w) a =
     (if a \<in> set as \<and> agent_id (store w a) \<noteq> sender_id m
      then (store w a)\<lparr>message_queue := message_queue (store w a) @ [m],
                        messages_received := messages_received (store w a) + 1\<rparr>
      else store w a)"
proof (induction as arbitrary: w)
  case Nil
  then show ?case by simp
next
  case (Cons b bs)
  then show ?case
    by (auto simp: receive_message_def store_upd)
qed

lemma route_broadcast:
  assumes "mas_ok w" and "receiver_id m = ''ALL''"
  shows "store (route_message m w) a =
     (if a \<in> set (dict_values (agents w)) \<and> agent_id (store w a) \<noteq> sender_id m
      then (store w a)\<lparr>message_queue := message_queue (store w a) @ [m],
                        messages_received := messages_received (store w a) + 1\<rparr>
      else store w a)"
  using assms(2) broadcast_store[OF mas_ok_distinct_values[OF assms(1)], of m
      "w\<lparr>message_log := message_log w @ [m], total_messages := total_messages w + 1\<rparr>" a]
  by (simp add: route_message_def Let_def)

lemma route_log: "message_log (route_message m w) = message_log w @ [m]"
  by (simp add: route_message_def Let_def broadcast_fields receive_message_def upd_fields
      split: option.splits)

subsection \<open>The contention loop\<close>

lemma compete_one_request: "fst (compete_one c a w) = charging_request a w"
  by (simp add: compete_one_def Let_def case_prod_beta)

lemma compete_one_eq:
  "snd (compete_one c a w) =
     (if 0 < available_stations (store w c)
      then upd a (\<lambda>ag. ag\<lparr>battery_level := 100\<rparr>)
             (upd a (\<lambda>ag. ag\<lparr>state := CHARGING\<rparr>)
               (upd c (\<lambda>ag. ag\<lparr>available_stations := available_stations ag - 1\<rparr>) w))
      else w)"
  by (simp add: compete_one_def handle_resource_request_def charging_request_def
      empty_dict_def Let_def)

lemma compete_one_other:
  "b \<noteq> a \<Longrightarrow> b \<noteq> c \<Longrightarrow> store (snd (compete_one c a w)) b = store w b"
  by (simp add: compete_one_eq store_upd)

lemma compete_one_stations:
  "a \<noteq> c \<Longrightarrow>
   available_stations (store (snd (compete_one c a w)) c) =
     (if 0 < available_stations (store w c) then available_stations (store w c) - 1
      else available_stations (store w c))"
  by (simp add: compete_one_eq store_upd)

lemma compete_one_self:
  "a \<noteq> c \<Longrightarrow>
   store (snd (compete_one c a w)) a =
     (if 0 < available_stations (store w c)
      then (store w a)\<lparr>state := CHARGING, battery_level := 100\<rparr>
      else store w a)"
  by (simp add: compete_one_eq store_upd)

lemma compete_other:
  "b \<notin> set as \<Longrightarrow> b \<noteq> c \<Longrightarrow> store (snd (compete c as w)) b = store w b"
  by (induction as arbitrary: w) (simp_all add: compete_world compete_one_other del: compete.simps)

lemma compete_nth:
  "c \<notin> set as \<Longrightarrow> distinct as \<Longrightarrow> i < length as \<Longrightarrow>
   store (snd (compete c as w)) (as ! i) =
     (if int i < available_stations (store w c)
      then (store w (as ! i))\<lparr>state := CHARGING, battery_level := 100\<rparr>
      else store w (as ! i))"
proof (induction as arbitrary: w i)
  case Nil
  then show ?case by simp
next
  case (Cons a as)
  have ac: "a \<noteq> c" and cas: "c \<notin> set as" and d: "distinct as" and aas: "a \<notin> set as"
    using Cons.prems by auto
  show ?case
  proof (cases i)
    case 0
    then show ?thesis
      using ac aas by (simp add: compete_world compete_other compete_one_self del: compete.simps)
  next
    case (Suc j)
    then have j: "j < length as"
      using Cons.prems by simp
    then have ne: "as ! j \<noteq> a" "as ! j \<noteq> c"
      using aas cas nth_mem by metis+
    show ?thesis
      using Suc Cons.IH[OF cas d j, of "snd (compete_one c a w)"] ne ac
      by (auto simp: compete_world compete_one_other compete_one_stations simp del: compete.simps)
  qed
qed

lemma compete_requests:
  "fst (compete c as w) = map (\<lambda>a. charging_request a w) as"
proof (induction as arbitrary: w)
  case Nil
  then show ?case by simp
next
  case (Cons a as)
  have "\<And>b. charging_request b (snd (compete_one c a w)) = charging_request b w"
    using shape_compete_one[OF same_shape_refl, of w c a]
    by (simp add: charging_request_def same_shape_def)
  then show ?case
    using Cons.IH[of "snd (compete_one c a w)"]
    by (simp add: case_prod_beta compete_one_request)
qed

lemma low_battery_not_coordinator:
  "cls (store w c) = CoordinatorAgent \<Longrightarrow> c \<notin> set (low_battery_agents w)"
  by (simp add: low_battery_agents_def)

lemma low_battery_distinct: "mas_ok w \<Longrightarrow> distinct (low_battery_agents w)"
  using mas_ok_distinct_values[of w] by (simp add: low_battery_agents_def)

lemma reachable_weary: "reachable weary"
proof -
  have "run [UpdateBattery 1 75] scenario = Some weary"
    by (simp add: weary_def)
  then show ?thesis
    using reachable_scenario reachable_run by blast
qed

lemma reachable_stranded: "reachable stranded"
proof -
  have "run [UpdateBattery 1 85] exhausted = Some stranded"
    by (simp add: stranded_def)
  then show ?thesis
    using reachable_exhausted reachable_run by blast
qed

subsection \<open>Nothing leaves the state CHARGING\<close>

lemma charging_update_battery: "charging p w \<Longrightarrow> charging p (update_battery a n w)"
  by (auto simp: charging_def update_battery_def store_upd)

lemma charging_receive_message: "charging p w \<Longrightarrow> charging p (receive_message a m w)"
  by (auto simp: charging_def receive_message_def store_upd)

lemma charging_pop:
  "charging p w \<Longrightarrow>
   charging p (upd a (\<lambda>ag. ag\<lparr>message_queue := tl (message_queue ag)\<rparr>) w)"
  by (auto simp: charging_def store_upd)

lemma charging_randint: "charging p w \<Longrightarrow> charging p (snd (randint lo hi w))"
  by (auto simp: charging_def randint_def)

lemma charging_handle_pick_request:
  "charging p w \<Longrightarrow> charging p (snd (handle_pick_request a r w))"
  by (auto simp: charging_def handle_pick_request_def move_to_location_def pick_items_def
      update_battery_def store_upd Let_def)

lemma charging_handle_collaboration_request:
  "charging p w \<Longrightarrow> charging p (snd (handle_collaboration_request a r w))"
  by (auto simp: charging_def handle_collaboration_request_def store_upd)

lemma charging_handle_transport_request:
  "charging p w \<Longrightarrow> charging p (snd (handle_transport_request a r w))"
  by (auto simp: charging_def handle_transport_request_def execute_transport_def
      move_to_location_def update_battery_def store_upd Let_def)

lemma charging_handle_resource_request:
  "charging p w \<Longrightarrow> charging p (snd (handle_resource_request a r w))"
  by (auto simp: charging_def handle_resource_request_def store_upd Let_def)

lemma charging_allocate_tasks:
  "charging p w \<Longrightarrow> charging p (snd (allocate_tasks c order w))"
  by (simp add: allocate_tasks_def Let_def case_prod_beta charging_randint
      charging_handle_pick_request charging_handle_transport_request
      split: list.splits sum.splits)

lemma charging_handle_order_request:
  "charging p w \<Longrightarrow> charging p (snd (handle_order_request c order w))"
proof -
  assume "charging p w"
  then have "charging p (upd c (\<lambda>ag. ag\<lparr>pending_orders := pending_orders ag @ [order]\<rparr>) w)"
    by (auto simp: charging_def store_upd)
  then show ?thesis
    by (simp add: handle_order_request_def charging_allocate_tasks)
qed

lemma charging_handle_message:
  "charging p w \<Longrightarrow> charging p (snd (handle_message a m w))"
  by (simp add: handle_message_def PickerAgent_handle_message_def
      TransportAgent_handle_message_def CoordinatorAgent_handle_message_def
      handle_pickup_ready_def handle_status_update_def
      charging_handle_pick_request charging_handle_collaboration_request
      charging_handle_transport_request charging_handle_order_request
      charging_handle_resource_request split: agent_class.splits)

lemma charging_compete_one: "charging p w \<Longrightarrow> charging p (snd (compete_one c a w))"
  by (auto simp: charging_def compete_one_eq store_upd)

lemma charging_compete: "charging p w \<Longrightarrow> charging p (snd (compete c as w))"
  by (induction as arbitrary: w) (simp_all only: compete_world charging_compete_one)

lemma charging_simulate_resource_competition:
  "charging p w \<Longrightarrow> charging p (snd (simulate_resource_competition w))"
  by (simp add: simulate_resource_competition_def charging_compete split: option.splits)

lemma charging_simulate_step:
  "charging p w \<Longrightarrow> simulate_step w = Some r \<Longrightarrow> charging p (snd r)"
  using process_all_preserves[of "charging p" w "dict_values (agents w)"]
  by (auto simp: simulate_step_def charging_simulate_resource_competition
      charging_handle_message charging_pop
      split: option.splits sum.splits prod.splits)

lemma charging_broadcast: "charging p w \<Longrightarrow> charging p (broadcast m as w)"
  by (induction as arbitrary: w) (simp_all add: charging_receive_message)

lemma charging_route_message: "charging p w \<Longrightarrow> charging p (route_message m w)"
proof -
  assume s: "charging p w"
  let ?w2 = "w\<lparr>message_log := message_log w @ [m], total_messages := total_messages w + 1\<rparr>"
  have "charging p ?w2"
    using s by (auto simp: charging_def)
  then show ?thesis
    by (simp add: route_message_def Let_def charging_broadcast charging_receive_message
        split: option.splits)
qed

lemma charging_send_message:
  "charging p w \<Longrightarrow> charging p (send_message a rid mtype c now w)"
proof -
  assume "charging p w"
  then have "charging p (route_message
      \<lparr>sender_id = agent_id (store w a), receiver_id = rid, message_type = mtype,
       content = c, timestamp = now\<rparr> w)"
    by (rule charging_route_message)
  then show ?thesis
    by (auto simp: send_message_def charging_def store_upd)
qed

lemma charging_process_order: "charging p w \<Longrightarrow> charging p (snd (process_order order w))"
proof -
  assume s: "charging p w"
  have "charging p (w\<lparr>orders_processed := orders_processed w + 1\<rparr>)"
    using s by (auto simp: charging_def)
  then show ?thesis
    by (simp add: process_order_def Let_def charging_handle_order_request split: option.splits)
qed

lemma charging_add_agent: "charging p w \<Longrightarrow> charging p (add_agent a w)"
  by (auto simp: add_agent_def register_agent_def Let_def charging_def store_upd
      split: option.splits)

lemma charging_run_op:
  assumes "charging p w" and "run_op x w = Some w1"
  shows "charging p w1"
proof (cases x)
  case (AddAgent a)
  then show ?thesis using assms charging_add_agent by auto
next
  case (RouteMessage m)
  then show ?thesis using assms charging_route_message by auto
next
  case (ProcessOrder order)
  then show ?thesis using assms charging_process_order by auto
next
  case SimulateStep
  then show ?thesis using assms charging_simulate_step by auto
next
  case (SendMessage a rid mtype c now)
  then show ?thesis using assms charging_send_message by auto
next
  case (ReceiveMessage a m)
  then show ?thesis using assms charging_receive_message by auto
next
  case (ProcessMessages a)
  then show ?thesis
    using assms process_messages_preserves[of "charging p" a w]
      charging_handle_message charging_pop by auto
next
  case (HandleMessage a m)
  then show ?thesis using assms charging_handle_message by auto
next
  case (UpdateBattery a n)
  then show ?thesis using assms charging_update_battery by auto
qed

lemma charging_run: "charging p w \<Longrightarrow> run xs w = Some w1 \<Longrightarrow> charging p w1"
proof (induction xs arbitrary: w)
  case Nil
  then show ?case by simp
next
  case (Cons x xs)
  then show ?case
    by (auto split: option.splits dest: charging_run_op)
qed

lemma compete_stations:
  "c \<notin> set as \<Longrightarrow> 0 \<le> available_stations (store w c) \<Longrightarrow>
   available_stations (store (snd (compete c as w)) c)
     = max 0 (available_stations (store w c) - int (length as))"
proof (induction as arbitrary: w)
  case Nil
  then show ?case by simp
next
  case (Cons a as)
  have ac: "a \<noteq> c" and cas: "c \<notin> set as"
    using Cons.prems by auto
  have "0 \<le> available_stations (store (snd (compete_one c a w)) c)"
    using Cons.prems(2) ac by (simp add: compete_one_stations)
  then show ?case
    using Cons.IH[OF cas, of "snd (compete_one c a w)"] ac Cons.prems(2)
    by (auto simp: compete_world compete_one_stations simp del: compete.simps)
qed

subsection \<open>Evaluating the handlers\<close>

lemmas handler_defs = handle_pick_request_def handle_transport_request_def
  execute_transport_def move_to_location_def pick_items_def update_battery_def
  handle_resource_request_def handle_collaboration_request_def
  allocate_tasks_def handle_order_request_def available_pickers_def
  available_transporters_def dict_values_def randint_def empty_dict_def
  handle_message_def PickerAgent_handle_message_def TransportAgent_handle_message_def
  CoordinatorAgent_handle_message_def Let_def

lemmas init_defs = BaseAgent_init_def PickerAgent_init_def TransportAgent_init_def
  CoordinatorAgent_init_def

lemma scenario_picker: "store scenario (Suc 0) = PickerAgent_init ''PICKER_01'' (2, 3)"
  using scenario_world(4) by simp

lemmas scenario_simps = scenario_world scenario_picker

text \<open>
  Claim C1 says that no operation raises, and that an accepted transport request (idle
  transporter, item count within capacity) runs its three phases to completion. In the
  scenario the transporter is idle and three items are within its capacity of 50, yet
  handling the request raises \<open>AttributeError\<close>: \<open>execute_transport\<close> calls
  \<open>self.move_to_location\<close>, which only \<open>PickerAgent\<close> defines. The transporter is left
  in state \<open>WORKING\<close> and its task counter is not incremented.
\<close>

theorem transport_request_raises:
  "cls (store scenario 2) = TransportAgent
   \<and> state (store scenario 2) = IDLE
   \<and> item_count transport3 = Some 3
   \<and> 3 \<le> carrying_capacity (store scenario 2)
   \<and> fst (handle_transport_request 2 transport3 scenario) = Inl AttributeError
   \<and> state (store (snd (handle_transport_request 2 transport3 scenario)) 2) = WORKING
   \<and> tasks_completed (store (snd (handle_transport_request 2 transport3 scenario)) 2) = 0"
  by (simp add: scenario_simps transport3_def handler_defs init_defs store_upd)

text \<open>
  Claim C2 says that with one idle picker at (2,3), one idle transporter at (1,1) and an
  order of three items, \<open>allocate_tasks\<close> leaves both agents idle with their task counters
  incremented by one. The picker does end idle with one task completed; the transport
  request raises \<open>AttributeError\<close>, so \<open>allocate_tasks\<close> raises, and the transporter is
  left in state \<open>WORKING\<close> with no task completed.
\<close>

theorem allocation_scenario_raises:
  "available_pickers 0 scenario = [1]
   \<and> available_transporters 0 scenario = [2]
   \<and> position (store scenario 1) = (2, 3)
   \<and> position (store scenario 2) = (1, 1)
   \<and> items order3 = Some [''item1'', ''item2'', ''item3'']
   \<and> fst (allocate_tasks 0 order3 scenario) = Inl AttributeError
   \<and> state (store (snd (allocate_tasks 0 order3 scenario)) 1) = IDLE
   \<and> tasks_completed (store (snd (allocate_tasks 0 order3 scenario)) 1) = 1
   \<and> state (store (snd (allocate_tasks 0 order3 scenario)) 2) = WORKING
   \<and> tasks_completed (store (snd (allocate_tasks 0 order3 scenario)) 2) = 0"
  by (simp add: scenario_simps order3_def handler_defs init_defs store_upd upd_fields)




text \<open>
  Claim C6: in every reachable world the pool of every coordinator satisfies
  \<open>0 \<le> available_stations \<le> charging_stations\<close>; a request for a charging station
  is granted when a station is available, returns success and takes exactly one station
  from the pool; with no station available it returns failure and changes nothing.
\<close>

theorem station_pool_invariant:
  assumes "reachable w" and "cls (store w c) = CoordinatorAgent"
    and "resource_type request = Some ''charging_station''"
  shows "0 \<le> available_stations (store w c)
    \<and> available_stations (store w c) \<le> charging_stations (store w c)
    \<and> (0 < available_stations (store w c) \<longrightarrow>
          fst (handle_resource_request c request w) = Some True
          \<and> available_stations (store (snd (handle_resource_request c request w)) c)
              = available_stations (store w c) - 1
          \<and> charging_stations (store (snd (handle_resource_request c request w)) c)
              = charging_stations (store w c))
    \<and> (available_stations (store w c) = 0 \<longrightarrow>
          handle_resource_request c request w = (Some False, w))"
proof -
  have "agent_ok (store w c)"
    using reachable_agents_ok[OF assms(1)] by (simp add: agents_ok_def)
  then have "0 \<le> available_stations (store w c)
      \<and> available_stations (store w c) \<le> charging_stations (store w c)"
    using assms(2) by (simp add: agent_ok_def)
  then show ?thesis
    using assms(3) by (simp add: handle_resource_request_def store_upd)
qed

text \<open>
  Claim C6 at the scenario (three stations, the request is granted) and after three
  grants (no station left, the request is denied).
\<close>

theorem station_pool_invariant_witness:
  "reachable scenario \<and> reachable exhausted
   \<and> available_stations (store scenario 0) = 3
   \<and> fst (handle_resource_request 0 (content station_msg) scenario) = Some True
   \<and> available_stations (store (snd (handle_resource_request 0 (content station_msg) scenario)) 0) = 2
   \<and> available_stations (store exhausted 0) = 0
   \<and> handle_resource_request 0 (content station_msg) exhausted = (Some False, exhausted)"
proof -
  have c: "cls (store scenario 0) = CoordinatorAgent" "available_stations (store scenario 0) = 3"
    by (simp_all add: scenario_simps init_defs)
  have e: "cls (store exhausted 0) = CoordinatorAgent" "available_stations (store exhausted 0) = 0"
    by (simp_all add: exhausted_def station_msg_def scenario_simps handler_defs init_defs store_upd)
  have r: "resource_type (content station_msg) = Some ''charging_station''"
    by (simp add: station_msg_def empty_dict_def)
  show ?thesis
    using station_pool_invariant[OF reachable_scenario c(1) r]
      station_pool_invariant[OF reachable_exhausted e(1) r] c(2) e(2)
      reachable_scenario reachable_exhausted
    by simp
qed

text \<open>
  Claim C7: in every reachable world the load of every picker is within its carrying
  capacity; a pick request that arrives while the picker is not idle, or whose items would
  take the load over the capacity, is rejected and leaves the whole world as it was; and
  the load is within the capacity after any pick request.
\<close>

theorem picker_capacity_invariant:
  assumes "reachable w" and "cls (store w a) = PickerAgent"
  shows "current_load (store w a) \<le> carrying_capacity (store w a)
    \<and> (\<not> (state (store w a) = IDLE
            \<and> current_load (store w a)
                + int (length (case items request of None \<Rightarrow> [] | Some xs \<Rightarrow> xs))
                \<le> carrying_capacity (store w a)) \<longrightarrow>
         handle_pick_request a request w = (Inr (), w))
    \<and> current_load (store (snd (handle_pick_request a request w)) a)
         \<le> carrying_capacity (store (snd (handle_pick_request a request w)) a)"
proof -
  have "agent_ok (store w a)"
    using reachable_agents_ok[OF assms(1)] by (simp add: agents_ok_def)
  then have l: "current_load (store w a) \<le> carrying_capacity (store w a)"
    using assms(2) by (simp add: agent_ok_def)
  have "agents_ok (snd (handle_pick_request a request w))"
    using reachable_agents_ok[OF assms(1)] by (rule ok_handle_pick_request)
  moreover have "cls (store (snd (handle_pick_request a request w)) a) = PickerAgent"
    using shape_handle_pick_request[OF same_shape_refl, of w a request] assms(2)
    by (simp add: same_shape_def)
  ultimately have l1: "current_load (store (snd (handle_pick_request a request w)) a)
         \<le> carrying_capacity (store (snd (handle_pick_request a request w)) a)"
    by (simp add: agents_ok_def agent_ok_def)
  have "\<not> (state (store w a) = IDLE
            \<and> current_load (store w a)
                + int (length (case items request of None \<Rightarrow> [] | Some xs \<Rightarrow> xs))
                \<le> carrying_capacity (store w a)) \<Longrightarrow>
         handle_pick_request a request w = (Inr (), w)"
    by (auto simp: handle_pick_request_def Let_def)
  then show ?thesis
    using l l1 by blast
qed

text \<open>
  Claim C7 at a picker that carries eight of ten items and is asked for three more.
\<close>

theorem picker_capacity_invariant_witness:
  "reachable loaded \<and> cls (store loaded 1) = PickerAgent
   \<and> state (store loaded 1) = IDLE
   \<and> current_load (store loaded 1) = 8 \<and> carrying_capacity (store loaded 1) = 10
   \<and> handle_pick_request 1 order3 loaded = (Inr (), loaded)"
proof -
  have f: "cls (store loaded 1) = PickerAgent" "state (store loaded 1) = IDLE"
    "current_load (store loaded 1) = 8" "carrying_capacity (store loaded 1) = 10"
    by (simp_all add: loaded_def pick8_def scenario_simps handler_defs init_defs store_upd)
  have i: "items order3 = Some [''item1'', ''item2'', ''item3'']"
    by (simp add: order3_def empty_dict_def)
  show ?thesis
    using picker_capacity_invariant[OF reachable_loaded f(1), of order3] f i reachable_loaded
    by simp
qed


text \<open>
  Claim C3 says that an agent that is granted a charging station goes to state charging
  and then at once to idle. In the scenario with the picker's battery at 15 and three
  stations free, the picker is granted a station: its battery is back at 100, one station
  is gone, and its state after the pass is \<open>CHARGING\<close>, not \<open>IDLE\<close>.
\<close>

theorem charged_agent_stays_charging_counterexample:
  "battery_level (store drained 1) = 15
   \<and> state (store drained 1) = IDLE
   \<and> available_stations (store (snd (simulate_resource_competition drained)) 0) = 2
   \<and> battery_level (store (snd (simulate_resource_competition drained)) 1) = 100
   \<and> state (store (snd (simulate_resource_competition drained)) 1) = CHARGING
   \<and> state (store (snd (simulate_resource_competition drained)) 1) \<noteq> IDLE"
  by (simp add: drained_def simulate_resource_competition_def low_battery_agents_def
      compete_world compete_one_eq scenario_simps handler_defs init_defs store_upd upd_fields
      del: compete.simps)

text \<open>
  Claim C3 as amended: in the contention pass of a reachable world with a coordinator, the
  requests are served in the order of the low-battery agents; the agent at place \<open>i\<close> is
  granted a station exactly when more than \<open>i\<close> stations were available. A granted agent
  is put in state \<open>CHARGING\<close> with its battery level set to 100 and nothing else changed,
  and it stays in state \<open>CHARGING\<close>: whatever operations follow the pass, they return
  and leave the agent in that state. A denied agent is left exactly as it was.
\<close>

theorem charging_grant_effect:
  assumes "reachable w" and "coordinator w = Some c"
    and "i < length (low_battery_agents w)"
  shows "(int i < available_stations (store w c) \<longrightarrow>
            store (snd (simulate_resource_competition w)) (low_battery_agents w ! i)
              = (store w (low_battery_agents w ! i))\<lparr>state := CHARGING, battery_level := 100\<rparr>
            \<and> (\<exists>w1. run xs (snd (simulate_resource_competition w)) = Some w1
                    \<and> state (store w1 (low_battery_agents w ! i)) = CHARGING))
       \<and> (\<not> int i < available_stations (store w c) \<longrightarrow>
            store (snd (simulate_resource_competition w)) (low_battery_agents w ! i)
            = store w (low_battery_agents w ! i))"
proof -
  let ?a = "low_battery_agents w ! i"
  let ?w = "snd (simulate_resource_competition w)"
  have ok: "mas_ok w"
    using assms(1) by (rule reachable_mas_ok)
  then have "cls (store w c) = CoordinatorAgent"
    using assms(2) by (simp add: mas_ok_def)
  then have c: "c \<notin> set (low_battery_agents w)"
    by (rule low_battery_not_coordinator)
  have d: "distinct (low_battery_agents w)"
    using ok by (rule low_battery_distinct)
  have ne: "low_battery_agents w \<noteq> []"
    using assms(3) by auto
  have "simulate_resource_competition w = compete c (low_battery_agents w) w"
    using ne assms(2) by (simp add: simulate_resource_competition_def)
  then have eff: "store ?w ?a =
     (if int i < available_stations (store w c)
      then (store w ?a)\<lparr>state := CHARGING, battery_level := 100\<rparr>
      else store w ?a)"
    using compete_nth[OF c d assms(3), of w] by simp
  have "\<exists>w1. run xs ?w = Some w1 \<and> state (store w1 ?a) = CHARGING"
    if g: "int i < available_stations (store w c)"
  proof -
    have ch: "charging ?a ?w"
      using eff g by (simp add: charging_def)
    obtain w1 where r: "run xs ?w = Some w1"
      using run_total by blast
    then have "charging ?a w1"
      using ch charging_run by blast
    then show ?thesis
      using r by (simp add: charging_def)
  qed
  then show ?thesis
    using eff by simp
qed

text \<open>
  The amended claim C3 at the scenario with the picker's battery at 15 (granted, and still
  charging after a pick request, a further drain of the battery and a simulation step),
  and after the three stations have been given away (denied).
\<close>

theorem charging_grant_effect_witness:
  "reachable drained \<and> coordinator drained = Some 0 \<and> low_battery_agents drained = [1]
   \<and> available_stations (store drained 0) = 3
   \<and> store (snd (simulate_resource_competition drained)) 1
       = (store drained 1)\<lparr>state := CHARGING, battery_level := 100\<rparr>
   \<and> (\<exists>w1. run [HandleMessage 1 pick3, UpdateBattery 1 90, SimulateStep]
               (snd (simulate_resource_competition drained)) = Some w1
           \<and> state (store w1 1) = CHARGING)
   \<and> reachable stranded \<and> coordinator stranded = Some 0 \<and> low_battery_agents stranded = [1]
   \<and> available_stations (store stranded 0) = 0
   \<and> store (snd (simulate_resource_competition stranded)) 1 = store stranded 1"
proof -
  have f: "coordinator drained = Some 0" "low_battery_agents drained = [1]"
    "available_stations (store drained 0) = 3"
    by (simp_all add: drained_def low_battery_agents_def scenario_simps handler_defs
        init_defs store_upd upd_fields)
  have g: "coordinator stranded = Some 0" "low_battery_agents stranded = [1]"
    "available_stations (store stranded 0) = 0"
    by (simp_all add: stranded_def exhausted_def station_msg_def low_battery_agents_def
        scenario_simps handler_defs init_defs store_upd upd_fields)
  have i: "0 < length (low_battery_agents drained)"
    using f(2) by simp
  have j: "0 < length (low_battery_agents stranded)"
    using g(2) by simp
  show ?thesis
    using charging_grant_effect[OF reachable_drained f(1) i,
        of "[HandleMessage 1 pick3, UpdateBattery 1 90, SimulateStep]"]
      charging_grant_effect[OF reachable_stranded g(1) j, of "[]"]
      f g reachable_drained reachable_stranded
    by (simp del: run.simps)
qed

text \<open>
  Claim C4 says that the agents that ask for a charging station are those below the level
  20, and that an agent at 20 or above asks for none. In the scenario with the picker's
  battery at 25 the pass hands one request to the coordinator, the picker's, and the
  picker is charged.
\<close>

theorem request_at_level_25_counterexample:
  "battery_level (store weary 1) = 25
   \<and> fst (simulate_resource_competition weary)
       = [empty_dict\<lparr>resource_type := Some ''charging_station'',
                     req_agent_id := Some ''PICKER_01''\<rparr>]
   \<and> battery_level (store (snd (simulate_resource_competition weary)) 1) = 100
   \<and> available_stations (store (snd (simulate_resource_competition weary)) 0) = 2"
proof -
  have l: "low_battery_agents weary = [1]" and c: "coordinator weary = Some 0"
    and b: "battery_level (store weary 1) = 25"
    and i: "agent_id (store weary 1) = ''PICKER_01''"
    by (simp_all add: weary_def low_battery_agents_def scenario_simps handler_defs
        init_defs store_upd upd_fields)
  have p: "simulate_resource_competition weary = compete 0 [1] weary"
    using l c by (simp add: simulate_resource_competition_def)
  have r: "fst (compete 0 [1] weary)
       = [empty_dict\<lparr>resource_type := Some ''charging_station'',
                     req_agent_id := Some ''PICKER_01''\<rparr>]"
    using i by (simp add: compete_requests charging_request_def del: compete.simps)
  have e: "battery_level (store (snd (compete 0 [1] weary)) 1) = 100"
    "available_stations (store (snd (compete 0 [1] weary)) 0) = 2"
    by (simp_all add: weary_def compete_world compete_one_eq scenario_simps handler_defs
        init_defs store_upd upd_fields del: compete.simps)
  show ?thesis
    using b p r e by simp
qed

text \<open>
  Claim C4 as amended: the requests that one contention pass of a reachable world hands to
  \<open>handle_resource_request\<close> are, when the system has a coordinator, one request for a
  charging station for each agent of the system that is not a coordinator and whose
  battery level is below 30, in the iteration order of the system's dictionary, each
  naming its agent, and no agent occurs twice among the requesters; no agent at level 30
  or above asks, and without a coordinator the pass hands over no request. Each request
  reaches the coordinator: the pass takes one station from its pool for every request
  until none is left.
\<close>

theorem charging_requests_threshold:
  assumes "reachable w"
  shows "fst (simulate_resource_competition w) =
     (case coordinator w of
        None \<Rightarrow> []
      | Some c \<Rightarrow>
          map (\<lambda>a. empty_dict\<lparr>resource_type := Some ''charging_station'',
                                req_agent_id := Some (agent_id (store w a))\<rparr>)
            (filter (\<lambda>a. battery_level (store w a) < 30 \<and> cls (store w a) \<noteq> CoordinatorAgent)
               (dict_values (agents w))))
     \<and> distinct (filter (\<lambda>a. battery_level (store w a) < 30 \<and> cls (store w a) \<noteq> CoordinatorAgent)
                   (dict_values (agents w)))
     \<and> (case coordinator w of
          None \<Rightarrow> snd (simulate_resource_competition w) = w
        | Some c \<Rightarrow>
            available_stations (store (snd (simulate_resource_competition w)) c)
              = max 0 (available_stations (store w c)
                        - int (length (fst (simulate_resource_competition w)))))"
proof -
  have ok: "mas_ok w"
    using assms by (rule reachable_mas_ok)
  have d: "distinct (low_battery_agents w)"
    using ok by (rule low_battery_distinct)
  have req: "fst (simulate_resource_competition w) =
     (case coordinator w of
        None \<Rightarrow> []
      | Some c \<Rightarrow> map (\<lambda>a. charging_request a w) (low_battery_agents w))"
    by (simp add: simulate_resource_competition_def compete_requests split: option.splits)
  have st: "available_stations (store (snd (simulate_resource_competition w)) c)
              = max 0 (available_stations (store w c)
                        - int (length (fst (simulate_resource_competition w))))"
    if c: "coordinator w = Some c" for c
  proof -
    have cc: "cls (store w c) = CoordinatorAgent"
      using ok c by (simp add: mas_ok_def)
    then have notin: "c \<notin> set (low_battery_agents w)"
      by (rule low_battery_not_coordinator)
    have "agent_ok (store w c)"
      using reachable_agents_ok[OF assms] by (simp add: agents_ok_def)
    then have nonneg: "0 \<le> available_stations (store w c)"
      using cc by (simp add: agent_ok_def)
    have "simulate_resource_competition w = compete c (low_battery_agents w) w"
      using c by (cases "low_battery_agents w") (simp_all add: simulate_resource_competition_def)
    then show ?thesis
      using compete_stations[OF notin nonneg] by (simp add: compete_requests)
  qed
  have none: "coordinator w = None \<Longrightarrow> snd (simulate_resource_competition w) = w"
    by (simp add: simulate_resource_competition_def)
  show ?thesis
    using req d st none
    by (auto simp: low_battery_agents_def charging_request_def split: option.splits)
qed

text \<open>
  The amended claim C4 at the scenario with the picker's battery at 25, and at the
  scenario itself, where every battery is at 100.
\<close>

theorem charging_requests_threshold_witness:
  "reachable weary \<and> reachable scenario
   \<and> fst (simulate_resource_competition weary)
       = [empty_dict\<lparr>resource_type := Some ''charging_station'',
                     req_agent_id := Some ''PICKER_01''\<rparr>]
   \<and> available_stations (store (snd (simulate_resource_competition weary)) 0) = 2
   \<and> fst (simulate_resource_competition scenario) = []"
proof -
  have rw: "reachable weary"
    by (rule reachable_weary)
  have f: "coordinator weary = Some 0" "agents weary = agents scenario"
    "battery_level (store weary 0) = 100" "battery_level (store weary 1) = 25"
    "battery_level (store weary 2) = 100" "agent_id (store weary 1) = ''PICKER_01''"
    "cls (store weary 1) = PickerAgent" "available_stations (store weary 0) = 3"
    by (simp_all add: weary_def scenario_simps handler_defs init_defs store_upd upd_fields)
  have g: "coordinator scenario = Some 0"
    "battery_level (store scenario 0) = 100" "battery_level (store scenario 1) = 100"
    "battery_level (store scenario 2) = 100"
    by (simp_all add: scenario_simps init_defs)
  show ?thesis
    using charging_requests_threshold[OF rw] charging_requests_threshold[OF reachable_scenario]
      rw reachable_scenario f g
    by (simp add: scenario_simps dict_values_def)
qed

text \<open>
  Claim C9: in a reachable world, routing a message addressed to \<open>'ALL'\<close> appends it once
  to the bus log and delivers it exactly once to every agent of the system whose
  identifier is not the sender's: the queue of each such agent grows by this one message
  and its received counter by one, and every other object is left as it was.
\<close>

theorem broadcast_delivery:
  assumes "reachable w" and "receiver_id msg = ''ALL''"
  shows "message_log (route_message msg w) = message_log w @ [msg]
    \<and> store (route_message msg w) a =
        (if a \<in> set (dict_values (agents w)) \<and> agent_id (store w a) \<noteq> sender_id msg
         then (store w a)\<lparr>message_queue := message_queue (store w a) @ [msg],
                           messages_received := messages_received (store w a) + 1\<rparr>
         else store w a)"
  using route_broadcast[OF reachable_mas_ok[OF assms(1)] assms(2), of a] route_log[of msg w]
  by simp

text \<open>
  Claim C9 at the scenario, for a broadcast of the coordinator: the picker and the
  transporter receive it, the coordinator does not.
\<close>

theorem broadcast_delivery_witness:
  "reachable scenario \<and> receiver_id notice = ''ALL''
   \<and> message_log (route_message notice scenario) = [notice]
   \<and> message_queue (store (route_message notice scenario) 0) = []
   \<and> message_queue (store (route_message notice scenario) 1) = [notice]
   \<and> messages_received (store (route_message notice scenario) 1) = 1
   \<and> message_queue (store (route_message notice scenario) 2) = [notice]
   \<and> messages_received (store (route_message notice scenario) 2) = 1"
proof -
  have r: "receiver_id notice = ''ALL''" and s: "sender_id notice = ''COORD_01''"
    by (simp_all add: notice_def)
  have l: "message_log scenario = []"
    by (simp add: scenario_def add_agent_def register_agent_def upd_def Let_def roster_defs)
  show ?thesis
    using broadcast_delivery[OF reachable_scenario r, of 0]
      broadcast_delivery[OF reachable_scenario r, of 1]
      broadcast_delivery[OF reachable_scenario r, of 2] r s l reachable_scenario
    by (simp add: scenario_simps init_defs dict_values_def)
qed


subsection \<open>The loop ends on an empty queue\<close>






subsection \<open>Registration\<close>

lemma add_agent_ids:
  "agent_id (store (add_agent a w) b) = agent_id (store w b)"
  "cls (store (add_agent a w) b) = cls (store w b)"
  by (auto simp: add_agent_def register_agent_def Let_def store_upd split: option.splits)

lemma run_op_ids:
  assumes "run_op x w = Some w1"
  shows "agent_id (store w1 b) = agent_id (store w b) \<and> cls (store w1 b) = cls (store w b)"
proof (cases "\<exists>a. x = AddAgent a")
  case True
  then show ?thesis
    using assms add_agent_ids by auto
next
  case False
  then have "same_shape w w1"
    using assms shape_run_op by blast
  then show ?thesis
    by (simp add: same_shape_def)
qed

lemma run_ids:
  "run xs w = Some w1 \<Longrightarrow>
   agent_id (store w1 b) = agent_id (store w b) \<and> cls (store w1 b) = cls (store w b)"
proof (induction xs arbitrary: w)
  case Nil
  then show ?case by simp
next
  case (Cons x xs)
  then obtain w2 where s: "run_op x w = Some w2" and r: "run xs w2 = Some w1"
    by (auto split: option.splits)
  show ?case
    using Cons.IH[OF r] run_op_ids[OF s, of b] by simp
qed

lemma unregistered_same_shape: "same_shape w w1 \<Longrightarrow> unregistered p w \<Longrightarrow> unregistered p w1"
  by (simp add: same_shape_def unregistered_def)

lemma unregistered_add_agent:
  assumes "unregistered p w" and "a \<noteq> p"
  shows "unregistered p (add_agent a w)"
proof -
  have keep: "p \<notin> set (dict_values (dict_set k a d))" if "p \<notin> set (dict_values d)" for k d
    using that assms(2) dict_set_values[of k a d] by auto
  have old: "\<And>c. p \<notin> set (dict_values (agent_registry (store w c)))"
    using assms(1) by (simp add: unregistered_def)
  show ?thesis
  proof (cases "cls (store w a) = CoordinatorAgent")
    case True
    then show ?thesis
      using old by (simp add: unregistered_def add_agent_def Let_def)
  next
    case False
    show ?thesis
    proof (cases "coordinator w")
      case None
      then show ?thesis
        using False old by (simp add: unregistered_def add_agent_def Let_def)
    next
      case (Some c)
      have "p \<notin> set (dict_values (agent_registry (store (add_agent a w) b)))" for b
        using False Some old[of b] keep[OF old[of c]]
        by (simp add: add_agent_def register_agent_def Let_def store_upd)
      then show ?thesis
        by (simp add: unregistered_def)
    qed
  qed
qed

lemma unregistered_run_op:
  assumes "unregistered p w" and "x \<noteq> AddAgent p" and "run_op x w = Some w1"
  shows "unregistered p w1"
proof (cases "\<exists>a. x = AddAgent a")
  case True
  then obtain a where x: "x = AddAgent a"
    by blast
  then have "a \<noteq> p"
    using assms(2) by simp
  then have "unregistered p (add_agent a w)"
    using assms(1) unregistered_add_agent by blast
  then show ?thesis
    using assms(3) x by simp
next
  case False
  then have "same_shape w w1"
    using assms(3) shape_run_op by blast
  then show ?thesis
    using assms(1) unregistered_same_shape by blast
qed

lemma unregistered_run:
  "unregistered p w \<Longrightarrow> AddAgent p \<notin> set xs \<Longrightarrow> run xs w = Some w1 \<Longrightarrow> unregistered p w1"
proof (induction xs arbitrary: w)
  case Nil
  then show ?case by simp
next
  case (Cons x xs)
  then obtain w2 where s: "run_op x w = Some w2" and r: "run xs w2 = Some w1"
    by (auto split: option.splits)
  have "unregistered p w2"
    using Cons.prems(1,2) s unregistered_run_op[of p w x w2] by auto
  then show ?case
    using Cons.IH[OF _ _ r] Cons.prems(2) by simp
qed

lemma unregistered_first_add:
  assumes "mas_ok w" and "coordinator w = None" and "cls (store w p) \<noteq> CoordinatorAgent"
  shows "unregistered p (add_agent p w)"
    and "map_of (agents (add_agent p w)) (agent_id (store w p)) = Some p"
    and "store (add_agent p w) = store w"
  using assms
  by (simp_all add: mas_ok_def unregistered_def add_agent_def Let_def dict_values_def
      dict_set_lookup)

lemma dict_set_lookup_other: "k' \<noteq> k \<Longrightarrow> map_of (dict_set k v d) k' = map_of d k'"
  by (induction k v d rule: dict_set.induct) auto

lemma entry_run_op:
  assumes "map_of (agents w) k = Some p"
    and "\<forall>b. x = AddAgent b \<longrightarrow> agent_id (store w b) \<noteq> k"
    and "run_op x w = Some w1"
  shows "map_of (agents w1) k = Some p"
proof (cases "\<exists>a. x = AddAgent a")
  case True
  then obtain a where x: "x = AddAgent a"
    by blast
  then have "agent_id (store w a) \<noteq> k"
    using assms(2) by simp
  then have "map_of (agents (add_agent a w)) k = map_of (agents w) k"
    by (auto simp: add_agent_def register_agent_def Let_def upd_fields dict_set_lookup_other
        split: option.splits)
  then show ?thesis
    using assms(1,3) x by simp
next
  case False
  then have "same_shape w w1"
    using assms(3) shape_run_op by blast
  then show ?thesis
    using assms(1) by (simp add: same_shape_def)
qed

lemma entry_run:
  "map_of (agents w) k = Some p \<Longrightarrow>
   \<forall>b. AddAgent b \<in> set xs \<longrightarrow> agent_id (store w b) \<noteq> k \<Longrightarrow>
   run xs w = Some w1 \<Longrightarrow> map_of (agents w1) k = Some p"
proof (induction xs arbitrary: w)
  case Nil
  then show ?case by simp
next
  case (Cons x xs)
  then obtain w2 where s: "run_op x w = Some w2" and r: "run xs w2 = Some w1"
    by (auto split: option.splits)
  have e: "map_of (agents w2) k = Some p"
    using entry_run_op[OF Cons.prems(1) _ s] Cons.prems(2) by simp
  have "\<forall>b. AddAgent b \<in> set xs \<longrightarrow> agent_id (store w2 b) \<noteq> k"
    using Cons.prems(2) run_op_ids[OF s] by simp
  then show ?case
    using Cons.IH[OF e _ r] by simp
qed

subsection \<open>What allocate\_tasks and the bus do to one object\<close>

lemma pick_other: "b \<noteq> a \<Longrightarrow> store (snd (handle_pick_request a r w)) b = store w b"
  by (simp add: handle_pick_request_def move_to_location_def pick_items_def update_battery_def
      store_upd Let_def)

lemma transport_other: "b \<noteq> a \<Longrightarrow> store (snd (handle_transport_request a r w)) b = store w b"
  by (simp add: handle_transport_request_def execute_transport_def move_to_location_def
      update_battery_def store_upd Let_def)

lemma randint_store: "store (snd (randint lo hi w)) = store w"
  by (simp add: randint_def)

lemma allocate_tasks_other:
  assumes "p \<notin> set (available_pickers c w)" and "p \<notin> set (available_transporters c w)"
  shows "store (snd (allocate_tasks c order w)) p = store w p"
proof (cases "available_pickers c w")
  case Nil
  then show ?thesis
    by (simp add: allocate_tasks_def)
next
  case (Cons picker ps)
  note pk = this
  show ?thesis
  proof (cases "available_transporters c w")
    case Nil
    then show ?thesis
      using pk by (simp add: allocate_tasks_def)
  next
    case (Cons transporter ts)
    have ne: "p \<noteq> picker" "p \<noteq> transporter"
      using assms pk Cons by auto
    show ?thesis
      using pk Cons ne
      by (simp add: allocate_tasks_def Let_def case_prod_beta pick_other transport_other
          randint_store split: sum.splits)
  qed
qed

lemma unregistered_not_available:
  "unregistered p w \<Longrightarrow>
   p \<notin> set (available_pickers c w) \<and> p \<notin> set (available_transporters c w)"
  by (simp add: unregistered_def available_pickers_def available_transporters_def)

lemma route_direct:
  assumes "receiver_id m \<noteq> ''ALL''" and "map_of (agents w) (receiver_id m) = Some p"
  shows "store (route_message m w) p =
     (store w p)\<lparr>message_queue := message_queue (store w p) @ [m],
                  messages_received := messages_received (store w p) + 1\<rparr>"
  using assms by (simp add: route_message_def Let_def receive_message_def store_upd)


text \<open>
  Claim C10 says that a non-coordinator agent added before any coordinator is never
  entered into the coordinator's registry and can never be selected by \<open>allocate_tasks\<close>.
  Add the picker to the new system, then the coordinator, then the transporter: the picker
  is not registered. Add the same picker once more: now the coordinator exists, the call
  registers the picker, \<open>allocate_tasks\<close> finds it available and the picker carries out
  the pick request of the next order.
\<close>

theorem early_agent_registered_counterexample:
  "coordinator new_system = None
   \<and> cls (store new_system 1) = PickerAgent
   \<and> late_coordinator = add_agent 2 (add_agent 0 (add_agent 1 new_system))
   \<and> coordinator late_coordinator = Some 0
   \<and> 1 \<notin> set (dict_values (agent_registry (store late_coordinator 0)))
   \<and> readded = add_agent 1 late_coordinator
   \<and> 1 \<in> set (dict_values (agent_registry (store readded 0)))
   \<and> available_pickers 0 readded = [1]
   \<and> tasks_completed (store readded 1) = 0
   \<and> tasks_completed (store (snd (allocate_tasks 0 order3 readded)) 1) = 1"
proof -
  have w: "agents late_coordinator = [(''PICKER_01'', 1), (''COORD_01'', 0), (''TRANSPORT_01'', 2)]"
    "coordinator late_coordinator = Some 0"
    "store late_coordinator 0 = (CoordinatorAgent_init ''COORD_01'')
       \<lparr>agent_registry := [(''TRANSPORT_01'', 2)]\<rparr>"
    "store late_coordinator 1 = PickerAgent_init ''PICKER_01'' (2, 3)"
    "store late_coordinator 2 = TransportAgent_init ''TRANSPORT_01'' (1, 1)"
    "draws late_coordinator = 0" "seed late_coordinator = (\<lambda>_. 0)"
    by (simp_all add: late_coordinator_def add_agent_def register_agent_def upd_def Let_def
        roster_defs)
  have w1: "store late_coordinator (Suc 0) = PickerAgent_init ''PICKER_01'' (2, 3)"
    using w(4) by simp
  have n: "coordinator new_system = None" "cls (store new_system 1) = PickerAgent"
    by (simp_all add: roster_defs)
  have a: "store readded 0 = (CoordinatorAgent_init ''COORD_01'')
       \<lparr>agent_registry := [(''TRANSPORT_01'', 2), (''PICKER_01'', 1)]\<rparr>"
    "store readded 1 = PickerAgent_init ''PICKER_01'' (2, 3)"
    "store readded 2 = TransportAgent_init ''TRANSPORT_01'' (1, 1)"
    "draws readded = 0" "seed readded = (\<lambda>_. 0)"
    by (simp_all add: readded_def add_agent_def register_agent_def upd_def Let_def w w1
        init_defs)
  have a1: "store readded (Suc 0) = PickerAgent_init ''PICKER_01'' (2, 3)"
    using a(2) by simp
  have t: "tasks_completed (store (snd (allocate_tasks 0 order3 readded)) 1) = 1"
    "available_pickers 0 readded = [1]" "tasks_completed (store readded 1) = 0"
    by (simp_all add: a a1 order3_def handler_defs init_defs store_upd upd_fields)
  have r: "1 \<notin> set (dict_values (agent_registry (store late_coordinator 0)))"
    "1 \<in> set (dict_values (agent_registry (store readded 0)))"
    by (simp_all add: w(3) a(1) init_defs dict_values_def)
  show ?thesis
    using n w(2) t r by (simp add: late_coordinator_def readded_def)
qed

text \<open>
  Claim C10 as amended: a non-coordinator agent added to the system of a reachable world
  that has no coordinator yet is entered into no coordinator's registry by that call, nor
  by any operations that follow, as long as \<open>add_agent\<close> is not called on it again
  (registration happens only in \<open>add_agent\<close>, and only when a coordinator already
  exists); the operations return, and in the world they lead to \<open>allocate_tasks\<close> of any
  coordinator does not find the agent among its available pickers or transporters and
  leaves it untouched. Yet the agent is in the system's dictionary and, as long as no
  object is added under its identifier, a message addressed to its identifier and a
  broadcast of another sender are each delivered to it once.
\<close>

theorem early_agent_not_registered:
  assumes "reachable w" and "coordinator w = None"
    and "cls (store w p) \<noteq> CoordinatorAgent" and "AddAgent p \<notin> set xs"
  shows "\<exists>w1. run xs (add_agent p w) = Some w1
      \<and> p \<notin> set (dict_values (agent_registry (store w1 c)))
      \<and> p \<notin> set (available_pickers c w1)
      \<and> p \<notin> set (available_transporters c w1)
      \<and> store (snd (allocate_tasks c order w1)) p = store w1 p
      \<and> ((\<forall>b. AddAgent b \<in> set xs \<longrightarrow> agent_id (store w b) \<noteq> agent_id (store w p)) \<longrightarrow>
            p \<in> set (dict_values (agents w1))
            \<and> (receiver_id msg = agent_id (store w p) \<and> receiver_id msg \<noteq> ''ALL''
                \<or> receiver_id msg = ''ALL'' \<and> sender_id msg \<noteq> agent_id (store w p) \<longrightarrow>
                store (route_message msg w1) p
                  = (store w1 p)\<lparr>message_queue := message_queue (store w1 p) @ [msg],
                                   messages_received := messages_received (store w1 p) + 1\<rparr>))"
proof -
  let ?w0 = "add_agent p w"
  let ?k = "agent_id (store w p)"
  have ok: "mas_ok w"
    using assms(1) by (rule reachable_mas_ok)
  have u0: "unregistered p ?w0" and e0: "map_of (agents ?w0) ?k = Some p"
    and s0: "store ?w0 = store w"
    using unregistered_first_add[OF ok assms(2,3)] by simp_all
  obtain w1 where r: "run xs ?w0 = Some w1"
    using run_total by blast
  have "run_op (AddAgent p) w = Some ?w0"
    by simp
  then have "reachable ?w0"
    using assms(1) reachable.step by blast
  then have ok1: "mas_ok w1"
    using r reachable_run reachable_mas_ok by blast
  have u1: "unregistered p w1"
    using u0 assms(4) r by (rule unregistered_run)
  have id1: "agent_id (store w1 p) = ?k"
    using run_ids[OF r, of p] s0 by simp
  have deliver: "p \<in> set (dict_values (agents w1))
            \<and> (receiver_id msg = ?k \<and> receiver_id msg \<noteq> ''ALL''
                \<or> receiver_id msg = ''ALL'' \<and> sender_id msg \<noteq> ?k \<longrightarrow>
                store (route_message msg w1) p
                  = (store w1 p)\<lparr>message_queue := message_queue (store w1 p) @ [msg],
                                   messages_received := messages_received (store w1 p) + 1\<rparr>)"
    if h: "\<forall>b. AddAgent b \<in> set xs \<longrightarrow> agent_id (store w b) \<noteq> ?k"
  proof -
    have "\<forall>b. AddAgent b \<in> set xs \<longrightarrow> agent_id (store ?w0 b) \<noteq> ?k"
      using h s0 by simp
    then have e1: "map_of (agents w1) ?k = Some p"
      using e0 r entry_run by blast
    then have "(?k, p) \<in> set (agents w1)"
      by (rule map_of_SomeD)
    then have m: "p \<in> set (dict_values (agents w1))"
      by (force simp: dict_values_def)
    have d: "store (route_message msg w1) p
                  = (store w1 p)\<lparr>message_queue := message_queue (store w1 p) @ [msg],
                                   messages_received := messages_received (store w1 p) + 1\<rparr>"
      if "receiver_id msg = ?k" and "receiver_id msg \<noteq> ''ALL''"
      using route_direct[of msg w1 p] that e1 by simp
    have b: "store (route_message msg w1) p
                  = (store w1 p)\<lparr>message_queue := message_queue (store w1 p) @ [msg],
                                   messages_received := messages_received (store w1 p) + 1\<rparr>"
      if "receiver_id msg = ''ALL''" and "sender_id msg \<noteq> ?k"
      using route_broadcast[OF ok1 that(1), of p] m id1 that(2) by simp
    show ?thesis
      using m d b by blast
  qed
  have "p \<notin> set (dict_values (agent_registry (store w1 c)))"
    using u1 by (simp add: unregistered_def)
  moreover have na: "p \<notin> set (available_pickers c w1) \<and> p \<notin> set (available_transporters c w1)"
    using u1 by (rule unregistered_not_available)
  moreover have "store (snd (allocate_tasks c order w1)) p = store w1 p"
    using na allocate_tasks_other by blast
  ultimately show ?thesis
    using r deliver by blast
qed

text \<open>
  The amended claim C10 at the new system: the picker is added first, then the
  coordinator and the transporter, and an order is processed.
\<close>

theorem early_agent_not_registered_witness:
  "reachable new_system \<and> coordinator new_system = None
   \<and> cls (store new_system 1) = PickerAgent
   \<and> (\<exists>w1. run [AddAgent 0, AddAgent 2, ProcessOrder order3] (add_agent 1 new_system) = Some w1
         \<and> 1 \<notin> set (dict_values (agent_registry (store w1 0)))
         \<and> 1 \<notin> set (available_pickers 0 w1)
         \<and> store (snd (allocate_tasks 0 order3 w1)) 1 = store w1 1
         \<and> 1 \<in> set (dict_values (agents w1))
         \<and> store (route_message notice w1) 1
              = (store w1 1)\<lparr>message_queue := message_queue (store w1 1) @ [notice],
                               messages_received := messages_received (store w1 1) + 1\<rparr>)"
proof -
  have n: "coordinator new_system = None" "cls (store new_system 1) = PickerAgent"
    "agent_id (store new_system 0) = ''COORD_01''"
    "agent_id (store new_system 1) = ''PICKER_01''"
    "agent_id (store new_system 2) = ''TRANSPORT_01''"
    by (simp_all add: roster_defs)
  have c: "cls (store new_system 1) \<noteq> CoordinatorAgent"
    using n(2) by simp
  have x: "AddAgent 1 \<notin> set [AddAgent 0, AddAgent 2, ProcessOrder order3]"
    by simp
  have m: "receiver_id notice = ''ALL''" "sender_id notice = ''COORD_01''"
    by (simp_all add: notice_def)
  have h: "\<forall>b. AddAgent b \<in> set [AddAgent 0, AddAgent 2, ProcessOrder order3] \<longrightarrow>
             agent_id (store new_system b) \<noteq> agent_id (store new_system 1)"
    using n by auto
  show ?thesis
    using early_agent_not_registered[OF reachable_new_system n(1) c x,
        where c = 0 and order = order3 and msg = notice]
      reachable_new_system n m h
    by (auto simp del: run.simps)
qed

end
